theory Spec2Isabelle
  imports Complex_Main
begin

section \<open>Numerical values\<close>

text \<open>
  The arrays of the program are one-dimensional NumPy arrays of floats, or two-dimensional
  ones for the Jacobian and its factors. They are modelled over the reals: a vector is a
  list, a matrix is the list of its rows. A quantity the source documents as
  "ndarray or float" is an \<open>ndvalue\<close>.
\<close>

type_synonym vec = "real list"
type_synonym mat = "real list list"

datatype ndvalue = Scal real | Arr vec

datatype error =
    AttributeError string
  | ValueError string
  | IndexError string
  | SolverError string

text \<open>\<open>a + b\<close> on NumPy operands: a scalar is broadcast over an array, two arrays of
  one length are added entry by entry, an array of length one is broadcast over the
  other, and any other pair of shapes raises \<open>ValueError\<close>.\<close>

fun nd_add :: "ndvalue \<Rightarrow> ndvalue \<Rightarrow> error + ndvalue" where
  "nd_add (Scal a) (Scal b) = Inr (Scal (a + b))"
| "nd_add (Scal a) (Arr bs) = Inr (Arr (map (\<lambda>b. a + b) bs))"
| "nd_add (Arr as) (Scal b) = Inr (Arr (map (\<lambda>a. a + b) as))"
| "nd_add (Arr as) (Arr bs) =
     (if length as = length bs then Inr (Arr (map2 (+) as bs))
      else if length bs = 1 then Inr (Arr (map (\<lambda>a. a + hd bs) as))
      else if length as = 1 then Inr (Arr (map (\<lambda>b. hd as + b) bs))
      else Inl (ValueError ''operands could not be broadcast together''))"

text \<open>\<open>np.all(d == 0)\<close>.\<close>

fun nd_all_zero :: "ndvalue \<Rightarrow> bool" where
  "nd_all_zero (Scal a) = (a = 0)"
| "nd_all_zero (Arr as) = list_all (\<lambda>a. a = 0) as"

section \<open>The plasma state: \<open>desc/configuration.py\<close>\<close>

text \<open>A spectral basis, as far as the state bookkeeping reads it: the list of its modes
  \<open>(l, m, n)\<close>; \<open>num_modes\<close> is the number of rows of \<open>modes\<close>.\<close>

type_synonym mode = "int \<times> int \<times> int"

record basis =
  modes :: "mode list"

definition num_modes :: "basis \<Rightarrow> nat" where
  "num_modes b = length (modes b)"

text \<open>
  The attributes of \<open>Configuration\<close> that the state bookkeeping and the perturbation
  read or write. The attribute \<open>_x\<close> of the source is the field \<open>eq_x\<close>, and so on.
  An object is referred to by its address in a store; \<open>eq_parent\<close> and \<open>eq_children\<close>
  hold addresses. The label dictionaries built by \<open>_make_labels\<close> are not modelled.
\<close>

record configuration =
  eq_sym :: bool
  eq_Psi :: ndvalue
  eq_NFP :: int
  eq_L :: int
  eq_M :: int
  eq_N :: int
  eq_x :: vec
  eq_R_lmn :: vec
  eq_Z_lmn :: vec
  eq_L_lmn :: vec
  eq_Rb_mn :: ndvalue
  eq_Zb_mn :: ndvalue
  eq_p_l :: ndvalue
  eq_i_l :: ndvalue
  eq_R_basis :: basis
  eq_Z_basis :: basis
  eq_L_basis :: basis
  eq_Rb_basis :: basis
  eq_Zb_basis :: basis
  eq_p_basis :: basis
  eq_i_basis :: basis
  eq_index :: string
  eq_bdry_mode :: string
  eq_zeta_ratio :: ndvalue
  eq_R_sym :: "string option"
  eq_Z_sym :: "string option"
  eq_parent :: "nat option"
  eq_children :: "nat list"

text \<open>
  Modelled from the spec: \<open>desc.utils.unpack_state\<close> is imported by
  \<open>configuration.py\<close> but its file is not among the sources. The state vector is the
  ordered sequence \<open>[R_lmn, Z_lmn, L_lmn]\<close>; unpacking at the mode counts \<open>nR\<close>, \<open>nZ\<close> cuts
  it into its first \<open>nR\<close> entries, the next \<open>nZ\<close> and the rest (Python slices, which
  truncate at the end of the array).
\<close>

definition unpack_state :: "vec \<Rightarrow> nat \<Rightarrow> nat \<Rightarrow> vec \<times> vec \<times> vec" where
  "unpack_state x nR nZ = (take nR x, take nZ (drop nR x), drop (nR + nZ) x)"

text \<open>The setter of the property \<open>x\<close> (lines 347 to 354).\<close>

definition set_x :: "vec \<Rightarrow> ('a configuration_scheme) \<Rightarrow> ('a configuration_scheme)" where
  "set_x x c =
     (let c1 = c\<lparr>eq_x := x\<rparr>;
          (R, Z, L) = unpack_state (eq_x c1) (num_modes (eq_R_basis c1)) (num_modes (eq_Z_basis c1))
      in c1\<lparr>eq_R_lmn := R, eq_Z_lmn := Z, eq_L_lmn := L\<rparr>)"

text \<open>The setters of \<open>R_lmn\<close>, \<open>Z_lmn\<close> and \<open>L_lmn\<close> (lines 361 to 384): each stores the
  block and rebuilds \<open>_x\<close> by \<open>np.concatenate\<close>.\<close>

definition set_R_lmn :: "vec \<Rightarrow> ('a configuration_scheme) \<Rightarrow> ('a configuration_scheme)" where
  "set_R_lmn R c =
     (let c1 = c\<lparr>eq_R_lmn := R\<rparr>
      in c1\<lparr>eq_x := eq_R_lmn c1 @ eq_Z_lmn c1 @ eq_L_lmn c1\<rparr>)"

definition set_Z_lmn :: "vec \<Rightarrow> ('a configuration_scheme) \<Rightarrow> ('a configuration_scheme)" where
  "set_Z_lmn Z c =
     (let c1 = c\<lparr>eq_Z_lmn := Z\<rparr>
      in c1\<lparr>eq_x := eq_R_lmn c1 @ eq_Z_lmn c1 @ eq_L_lmn c1\<rparr>)"

definition set_L_lmn :: "vec \<Rightarrow> ('a configuration_scheme) \<Rightarrow> ('a configuration_scheme)" where
  "set_L_lmn L c =
     (let c1 = c\<lparr>eq_L_lmn := L\<rparr>
      in c1\<lparr>eq_x := eq_R_lmn c1 @ eq_Z_lmn c1 @ eq_L_lmn c1\<rparr>)"

text \<open>
  \<open>change_resolution\<close> (lines 253 to 307). The constructor of the Fourier-Zernike basis
  and \<open>desc.utils.copy_coeffs\<close> belong to modules that are not among the sources; they are
  the parameters \<open>FZB\<close> (called with \<open>L\<close>, \<open>M\<close>, \<open>N\<close>, \<open>NFP\<close>, \<open>sym\<close>, \<open>index\<close>) and \<open>cc\<close>
  (called with the old coefficients, the old modes and the new modes).
\<close>

type_synonym fzb_ctor = "int \<Rightarrow> int \<Rightarrow> int \<Rightarrow> int \<Rightarrow> string option \<Rightarrow> string \<Rightarrow> basis"
type_synonym copy_coeffs = "vec \<Rightarrow> mode list \<Rightarrow> mode list \<Rightarrow> vec"

text \<open>Lines 257 to 269: each of \<open>L\<close>, \<open>M\<close>, \<open>N\<close> that is given and differs from the
  stored value is stored; the flag tells whether any did.\<close>

definition store_resolution ::
  "int option \<Rightarrow> int option \<Rightarrow> int option \<Rightarrow> ('a configuration_scheme) \<Rightarrow>
   ('a configuration_scheme) \<times> bool" where
  "store_resolution L M N c =
     (let L_change = (case L of None \<Rightarrow> False | Some l \<Rightarrow> l \<noteq> eq_L c);
          M_change = (case M of None \<Rightarrow> False | Some m \<Rightarrow> m \<noteq> eq_M c);
          N_change = (case N of None \<Rightarrow> False | Some n \<Rightarrow> n \<noteq> eq_N c)
      in (c\<lparr>eq_L := (case L of None \<Rightarrow> eq_L c | Some l \<Rightarrow> if l \<noteq> eq_L c then l else eq_L c),
            eq_M := (case M of None \<Rightarrow> eq_M c | Some m \<Rightarrow> if m \<noteq> eq_M c then m else eq_M c),
            eq_N := (case N of None \<Rightarrow> eq_N c | Some n \<Rightarrow> if n \<noteq> eq_N c then n else eq_N c)\<rparr>,
          L_change \<or> M_change \<or> N_change))"

text \<open>Lines 271 to 306: the new bases, the coefficients copied onto them, and the state
  vector.\<close>

definition rebuild_bases ::
  "fzb_ctor \<Rightarrow> copy_coeffs \<Rightarrow> ('a configuration_scheme) \<Rightarrow> ('a configuration_scheme)" where
  "rebuild_bases FZB cc c =
     (let old_modes_R = modes (eq_R_basis c);
          old_modes_Z = modes (eq_Z_basis c);
          old_modes_L = modes (eq_L_basis c);
          R_basis = FZB (eq_L c) (eq_M c) (eq_N c) (eq_NFP c) (eq_R_sym c) (eq_index c);
          Z_basis = FZB (eq_L c) (eq_M c) (eq_N c) (eq_NFP c) (eq_Z_sym c) (eq_index c);
          L_basis = FZB (eq_L c) (eq_M c) (eq_N c) (eq_NFP c) (eq_Z_sym c) (eq_index c);
          R_lmn = cc (eq_R_lmn c) old_modes_R (modes R_basis);
          Z_lmn = cc (eq_Z_lmn c) old_modes_Z (modes Z_basis);
          L_lmn = cc (eq_L_lmn c) old_modes_L (modes L_basis)
      in c\<lparr>eq_R_basis := R_basis, eq_Z_basis := Z_basis, eq_L_basis := L_basis,
            eq_R_lmn := R_lmn, eq_Z_lmn := Z_lmn, eq_L_lmn := L_lmn,
            eq_x := R_lmn @ Z_lmn @ L_lmn\<rparr>)"

definition change_resolution ::
  "fzb_ctor \<Rightarrow> copy_coeffs \<Rightarrow> int option \<Rightarrow> int option \<Rightarrow> int option \<Rightarrow>
   ('a configuration_scheme) \<Rightarrow> ('a configuration_scheme)" where
  "change_resolution FZB cc L M N c =
     (case store_resolution L M N c of
        (c1, changed) \<Rightarrow> if \<not> changed then c1 else rebuild_bases FZB cc c1)"

subsection \<open>Construction\<close>

text \<open>\<open>np.where(cond)[0]\<close> on the rows of an array: the indices of the rows that satisfy
  the condition, in increasing order.\<close>

definition where_idx :: "('a \<Rightarrow> bool) \<Rightarrow> 'a list \<Rightarrow> nat list" where
  "where_idx P xs = filter (\<lambda>i. P (xs ! i)) [0..<length xs]"

text \<open>\<open>put(x, idx, val)\<close> of \<open>desc.backend\<close> (not among the sources): the array with
  the entries at \<open>idx\<close> set to \<open>val\<close>. The indices come from \<open>where_idx\<close>, so they are in
  range.\<close>

definition put :: "vec \<Rightarrow> nat list \<Rightarrow> real \<Rightarrow> vec" where
  "put x idx v = fold (\<lambda>i y. y[i := v]) idx x"

text \<open>
  \<open>initial_guess\<close> (lines 1041 to 1076). The loop runs over the rows \<open>k\<close> of the
  boundary basis; \<open>axis\<close> is an array of rows \<open>[n, R0_n, Z0_n]\<close>. Reading \<open>b_mn[k]\<close>
  past the end, and the first entry of an empty array, raise \<open>IndexError\<close>.
\<close>

fun initial_guess_loop ::
  "basis \<Rightarrow> vec \<Rightarrow> (real \<times> real \<times> real) list \<Rightarrow> mode list \<Rightarrow> nat \<Rightarrow> vec \<Rightarrow> error + vec" where
  "initial_guess_loop x_basis b_mn axis [] k x_lmn = Inr x_lmn"
| "initial_guess_loop x_basis b_mn axis ((l, m, n) # rest) k x_lmn =
     (let idx = where_idx (\<lambda>(l', m', n'). l' = \<bar>m\<bar> \<and> m' = m \<and> n' = n) (modes x_basis)
      in if m = 0 then
           (let idx2 = where_idx (\<lambda>(l', m', n'). l' = \<bar>m\<bar> + 2 \<and> m' = m \<and> n' = n) (modes x_basis)
            in if length b_mn \<le> k then Inl (IndexError ''b_mn[k]'')
               else (case axis of
                       [] \<Rightarrow> Inl (IndexError ''axis'')
                     | (an, aR, aZ) # _ \<Rightarrow>
                         (let x0 = (if an = real_of_int n then aR else b_mn ! k)
                          in initial_guess_loop x_basis b_mn axis rest (Suc k)
                               (put (put x_lmn idx x0) idx2 (b_mn ! k - x0)))))
         else if length b_mn \<le> k then Inl (IndexError ''b_mn[k]'')
         else initial_guess_loop x_basis b_mn axis rest (Suc k) (put x_lmn idx (b_mn ! k)))"

definition initial_guess ::
  "basis \<Rightarrow> vec \<Rightarrow> basis \<Rightarrow> (real \<times> real \<times> real) list \<Rightarrow> error + vec" where
  "initial_guess x_basis b_mn b_basis axis =
     initial_guess_loop x_basis b_mn axis (modes b_basis) 0 (replicate (num_modes x_basis) 0)"

text \<open>
  The last block of \<open>_init_from_inputs_\<close> (lines 201 to 231), which sets \<open>_x\<close>, \<open>_R_lmn\<close>,
  \<open>_Z_lmn\<close> and \<open>_L_lmn\<close>. The lines before it read the required keys, create the bases and
  format the profiles and the boundary; here the configuration \<open>c\<close> already holds the
  bases, \<open>Rb\<close> and \<open>Zb\<close> are the arrays \<open>format_boundary\<close> returned, \<open>boundary\<close> is the input
  array of rows \<open>[m, n, Rb_mn, Zb_mn]\<close>, and the optional keys \<open>x\<close>, \<open>R_lmn\<close>, \<open>Z_lmn\<close>,
  \<open>L_lmn\<close> and \<open>axis\<close> of the input dictionary are options. A missing key is caught by the
  source's \<open>except\<close>; an error of \<open>initial_guess\<close>, called inside the handler, propagates.
\<close>

definition init_state ::
  "vec option \<Rightarrow> vec option \<Rightarrow> vec option \<Rightarrow> vec option \<Rightarrow> (real \<times> real \<times> real) list option \<Rightarrow>
   (real \<times> real \<times> real \<times> real) list \<Rightarrow> vec \<Rightarrow> vec \<Rightarrow>
   ('a configuration_scheme) \<Rightarrow> error + ('a configuration_scheme)" where
  "init_state in_x in_R in_Z in_L in_axis boundary Rb Zb c =
     (case in_x of
        Some x \<Rightarrow>
          (let c1 = c\<lparr>eq_x := x\<rparr>;
               (R, Z, L) = unpack_state (eq_x c1) (num_modes (eq_R_basis c1)) (num_modes (eq_Z_basis c1))
           in Inr (c1\<lparr>eq_R_lmn := R, eq_Z_lmn := Z, eq_L_lmn := L\<rparr>))
      | None \<Rightarrow>
          (let axis = (case in_axis of
                         Some a \<Rightarrow> a
                       | None \<Rightarrow> map (\<lambda>(m, n, r, z). (n, r, z)) (filter (\<lambda>(m, n, r, z). m = 0) boundary))
           in case (case in_R of Some R \<Rightarrow> Inr R
                               | None \<Rightarrow> initial_guess (eq_R_basis c) Rb (eq_Rb_basis c) axis) of
                Inl e \<Rightarrow> Inl e
              | Inr R \<Rightarrow>
                  (case (case in_Z of Some Z \<Rightarrow> Inr Z
                                    | None \<Rightarrow> initial_guess (eq_Z_basis c) Zb (eq_Zb_basis c) axis) of
                     Inl e \<Rightarrow> Inl e
                   | Inr Z \<Rightarrow>
                       (let L = (case in_L of Some L \<Rightarrow> L
                                            | None \<Rightarrow> replicate (num_modes (eq_L_basis c)) 0);
                            c1 = c\<lparr>eq_R_lmn := R, eq_Z_lmn := Z, eq_L_lmn := L\<rparr>
                        in Inr (c1\<lparr>eq_x := eq_R_lmn c1 @ eq_Z_lmn c1 @ eq_L_lmn c1\<rparr>)))))"

subsection \<open>The invariant of the state vector\<close>

definition x_is_concat :: "('a configuration_scheme) \<Rightarrow> bool" where
  "x_is_concat c = (eq_x c = eq_R_lmn c @ eq_Z_lmn c @ eq_L_lmn c)"

definition blocks_are_unpacked :: "('a configuration_scheme) \<Rightarrow> bool" where
  "blocks_are_unpacked c =
     (unpack_state (eq_x c) (num_modes (eq_R_basis c)) (num_modes (eq_Z_basis c))
        = (eq_R_lmn c, eq_Z_lmn c, eq_L_lmn c))"

definition state_inv :: "('a configuration_scheme) \<Rightarrow> bool" where
  "state_inv c = (x_is_concat c \<and> blocks_are_unpacked c)"

section \<open>Collaborators of the perturbation\<close>

text \<open>
  The argument tuple \<open>(y, Rb_mn, Zb_mn, p_l, i_l, Psi, zeta_ratio)\<close> handed to every
  method of the objective.
\<close>

type_synonym args = "vec \<times> ndvalue \<times> ndvalue \<times> ndvalue \<times> ndvalue \<times> ndvalue \<times> ndvalue"

text \<open>The index arguments of \<open>jvp2\<close> are the integer \<open>0\<close> (the state) or a tuple of
  block positions; its direction arguments are an array or a tuple of deltas.\<close>

datatype argnum = ArgInt nat | ArgTuple "nat list"
datatype tangent = TanArr ndvalue | TanTuple "ndvalue list"

record bc_constraint =
  project :: "vec \<Rightarrow> vec"
  recover :: "ndvalue \<Rightarrow> vec"

text \<open>
  The objective and the boundary constraint are objects of modules that are not among
  the sources. Their methods are fields of a record: pure functions of their arguments,
  as the interface describes them.
\<close>

record objective =
  scalar :: bool
  compute :: "args \<Rightarrow> vec"
  jac_x :: "args \<Rightarrow> mat"
  jvp :: "nat list \<Rightarrow> ndvalue list \<Rightarrow> args \<Rightarrow> vec"
  jvp2 :: "argnum \<Rightarrow> argnum \<Rightarrow> tangent \<Rightarrow> tangent \<Rightarrow> args \<Rightarrow> vec"
  BC_constraint :: bc_constraint

text \<open>An \<open>Equilibrium\<close> is a \<open>Configuration\<close> with an objective (or \<open>None\<close>) and the
  flag \<open>built\<close>.\<close>

record equilibrium = configuration +
  eq_objective :: "objective option"
  eq_built :: bool

subsection \<open>The directional product of the objective\<close>






type_synonym store = "equilibrium list"

text \<open>The arguments of one call of \<open>trust_region_step_exact\<close>, in the order the source
  passes them: \<open>n, m, f, u, s, v, Delta\<close> and the keywords.\<close>

record tr_call =
  tr_n :: nat
  tr_m :: nat
  tr_f :: vec
  tr_u :: mat
  tr_s :: vec
  tr_v :: mat
  tr_Delta :: ndvalue
  tr_initial_alpha :: "real option"
  tr_rtol :: real
  tr_max_iter :: nat
  tr_threshold :: real

text \<open>
  What the call does besides returning: the warning, and the calls of collaborators, in
  the order they happen. Progress printing and the timer are not modelled.
\<close>

datatype event =
    Warn string
  | EvBuild int
  | EvProject
  | EvJacX
  | EvSvd
  | EvCompute
  | EvJvp "nat list" "ndvalue list"
  | EvJvp2 argnum argnum tangent tangent
  | EvTrStep tr_call
  | EvCopy
  | EvNewBC
  | EvRecover

text \<open>
  The environment of a call: the module flag \<open>use_jax\<close>, \<open>np.linalg.svd\<close> with
  \<open>full_matrices=False\<close> (returning \<open>u, s, vt\<close>), the solver
  \<open>desc.optimize.tr_subproblems.trust_region_step_exact\<close> (returning the step, \<open>hit\<close>
  and \<open>alpha\<close>, or raising), the constructor \<open>BoundaryConstraint\<close> and the method
  \<open>Equilibrium.build\<close>. None of their files is among the sources.
\<close>

record env =
  use_jax :: bool
  svd :: "mat \<Rightarrow> mat \<times> vec \<times> mat"
  trust_region_step_exact :: "tr_call \<Rightarrow> error + (vec \<times> bool \<times> real)"
  BoundaryConstraint ::
    "basis \<Rightarrow> basis \<Rightarrow> basis \<Rightarrow> basis \<Rightarrow> basis \<Rightarrow> ndvalue \<Rightarrow> ndvalue \<Rightarrow> bc_constraint"
  build :: "int \<Rightarrow> equilibrium \<Rightarrow> equilibrium"

subsection \<open>\<open>Configuration.copy\<close>\<close>

text \<open>
  \<open>copy.deepcopy(self)\<close> copies every object reachable from \<open>self\<close>; among equilibria
  these are the ones reached through \<open>_parent\<close> and \<open>_children\<close>. The copies are
  appended to the store, and the references inside them point to the copies.
\<close>

definition refs :: "equilibrium \<Rightarrow> nat list" where
  "refs e = (case eq_parent e of None \<Rightarrow> [] | Some q \<Rightarrow> [q]) @ eq_children e"

fun reach :: "nat \<Rightarrow> store \<Rightarrow> nat list \<Rightarrow> nat list" where
  "reach 0 st as = as"
| "reach (Suc k) st as =
     reach k st (remdups (as @ concat (map (\<lambda>a. if a < length st then refs (st ! a) else []) as)))"

fun index_of :: "nat list \<Rightarrow> nat \<Rightarrow> nat" where
  "index_of [] a = 0"
| "index_of (b # bs) a = (if a = b then 0 else Suc (index_of bs a))"

definition deepcopy :: "store \<Rightarrow> nat \<Rightarrow> store \<times> nat" where
  "deepcopy st a =
     (let R = reach (length st) st [a];
          ren = (\<lambda>r. length st + index_of R r);
          clone = (\<lambda>r. (st ! r)\<lparr>eq_parent := map_option ren (eq_parent (st ! r)),
                                eq_children := map ren (eq_children (st ! r))\<rparr>)
      in (st @ map clone R, ren a))"

text \<open>\<open>Configuration.copy\<close> (lines 243 to 251) with its default \<open>deepcopy=True\<close>, the
  only way the perturbation calls it.\<close>

definition eq_copy :: "store \<Rightarrow> nat \<Rightarrow> store \<times> nat" where
  "eq_copy st a =
     (let (st1, new) = deepcopy st a;
          st2 = st1[new := (st1 ! new)\<lparr>eq_parent := Some a\<rparr>];
          st3 = st2[a := (st2 ! a)\<lparr>eq_children := eq_children (st2 ! a) @ [new]\<rparr>]
      in (st3, new))"

section \<open>\<open>perturb\<close>: \<open>desc/perturbations.py\<close>\<close>

subsection \<open>Arguments\<close>

text \<open>\<open>tr_ratio\<close> is a "float or array of float": a float (\<open>TrScalar\<close>) or a NumPy array
  of floats (\<open>TrSeq\<close>), which the source unpacks into two names.\<close>

datatype tr_ratio = TrScalar real | TrSeq "real list"

record perturb_args =
  arg_dRb :: "ndvalue option"
  arg_dZb :: "ndvalue option"
  arg_dp :: "ndvalue option"
  arg_di :: "ndvalue option"
  arg_dPsi :: "ndvalue option"
  arg_dzeta_ratio :: "ndvalue option"
  arg_order :: int
  arg_tr_ratio :: tr_ratio
  arg_cutoff :: real
  arg_Jx :: "mat option"
  arg_verbose :: int
  arg_copy :: bool

text \<open>The defaults of the signature (lines 14 to 28).\<close>

definition default_args :: perturb_args where
  "default_args =
     \<lparr>arg_dRb = None, arg_dZb = None, arg_dp = None, arg_di = None, arg_dPsi = None,
      arg_dzeta_ratio = None, arg_order = 2, arg_tr_ratio = TrScalar (1 / 10),
      arg_cutoff = 1 / 10 ^ 6, arg_Jx = None, arg_verbose = 1, arg_copy = True\<rparr>"

definition fd_warning :: string where
  "fd_warning = ''Computing perturbations with finite differences can be highly innacurate. Consider using JAX for exact derivatives''"

subsection \<open>The named parameter blocks\<close>

datatype block = Rb_mn | Zb_mn | p_l | i_l | Psi | zeta_ratio

text \<open>The dictionary \<open>arg_idx\<close> (line 94).\<close>

fun arg_idx :: "block \<Rightarrow> nat" where
  "arg_idx Rb_mn = 1"
| "arg_idx Zb_mn = 2"
| "arg_idx p_l = 3"
| "arg_idx i_l = 4"
| "arg_idx Psi = 5"
| "arg_idx zeta_ratio = 6"

text \<open>\<open>getattr(eq, key)\<close> and \<open>setattr(eq, key, value)\<close> for the six keys; the setters of
  \<open>Configuration\<close> (lines 318 to 420) store the value and nothing else.\<close>

fun get_block :: "block \<Rightarrow> equilibrium \<Rightarrow> ndvalue" where
  "get_block Rb_mn e = eq_Rb_mn e"
| "get_block Zb_mn e = eq_Zb_mn e"
| "get_block p_l e = eq_p_l e"
| "get_block i_l e = eq_i_l e"
| "get_block Psi e = eq_Psi e"
| "get_block zeta_ratio e = eq_zeta_ratio e"

fun set_block :: "block \<Rightarrow> ndvalue \<Rightarrow> equilibrium \<Rightarrow> equilibrium" where
  "set_block Rb_mn v e = e\<lparr>eq_Rb_mn := v\<rparr>"
| "set_block Zb_mn v e = e\<lparr>eq_Zb_mn := v\<rparr>"
| "set_block p_l v e = e\<lparr>eq_p_l := v\<rparr>"
| "set_block i_l v e = e\<lparr>eq_i_l := v\<rparr>"
| "set_block Psi v e = e\<lparr>eq_Psi := v\<rparr>"
| "set_block zeta_ratio v e = e\<lparr>eq_zeta_ratio := v\<rparr>"

text \<open>Lines 77 to 89: a delta enters the dictionary \<open>deltas\<close> when it is not \<open>None\<close> and
  not all zero. The dictionary keeps the order of insertion.\<close>

definition delta_entry :: "block \<Rightarrow> ndvalue option \<Rightarrow> (block \<times> ndvalue) list" where
  "delta_entry k d =
     (case d of None \<Rightarrow> [] | Some v \<Rightarrow> if \<not> nd_all_zero v then [(k, v)] else [])"

definition collect_deltas :: "perturb_args \<Rightarrow> (block \<times> ndvalue) list" where
  "collect_deltas p =
     delta_entry Rb_mn (arg_dRb p) @ delta_entry Zb_mn (arg_dZb p) @
     delta_entry p_l (arg_dp p) @ delta_entry i_l (arg_di p) @
     delta_entry Psi (arg_dPsi p) @ delta_entry zeta_ratio (arg_dzeta_ratio p)"

text \<open>Lines 102 to 106: unpacking a float raises \<open>TypeError\<close>, which is caught; unpacking
  an array that has not two entries raises \<open>ValueError\<close>, which is not.\<close>

fun unpack_tr_ratio :: "tr_ratio \<Rightarrow> error + real \<times> real" where
  "unpack_tr_ratio (TrScalar r) = Inr (r, r)"
| "unpack_tr_ratio (TrSeq [r1, r2]) = Inr (r1, r2)"
| "unpack_tr_ratio (TrSeq rs) = Inl (ValueError ''cannot unpack tr_ratio into two values'')"

subsection \<open>NumPy operations of the body\<close>

text \<open>\<open>np.linalg.norm\<close> of a vector or a scalar.\<close>

fun nd_norm :: "ndvalue \<Rightarrow> real" where
  "nd_norm (Scal a) = \<bar>a\<bar>"
| "nd_norm (Arr as) = sqrt (sum_list (map (\<lambda>a. a\<^sup>2) as))"

text \<open>\<open>tr_ratio * nrm\<close> where \<open>nrm\<close> is the NumPy float a norm returns: a float is
  multiplied; an array becomes the array of its entries times \<open>nrm\<close>.\<close>

fun tr_times :: "tr_ratio \<Rightarrow> real \<Rightarrow> ndvalue" where
  "tr_times (TrScalar r) nrm = Scal (r * nrm)"
| "tr_times (TrSeq rs) nrm = Arr (map (\<lambda>r. r * nrm) rs)"

text \<open>\<open>RHS += temp\<close> on arrays: the result keeps the shape of \<open>RHS\<close>, so \<open>temp\<close> has the
  same length or length one; otherwise \<open>ValueError\<close>.\<close>

definition nd_iadd :: "vec \<Rightarrow> vec \<Rightarrow> error + vec" where
  "nd_iadd a b =
     (if length b = length a then Inr (map2 (+) a b)
      else if length b = 1 then Inr (map (\<lambda>x. x + hd b) a)
      else Inl (ValueError ''operands could not be broadcast together''))"

definition matmul :: "mat \<Rightarrow> mat \<Rightarrow> mat" where
  "matmul A B = map (\<lambda>row. map (\<lambda>col. sum_list (map2 (*) row col)) (transpose B)) A"

text \<open>Lines 123 to 127: the pseudo-inverse \<open>Jxi\<close> with the relative cutoff. The factors
  come from one decomposition, so their shapes agree.\<close>

definition pseudo_inverse :: "real \<Rightarrow> mat \<Rightarrow> vec \<Rightarrow> real \<Rightarrow> mat \<Rightarrow> mat" where
  "pseudo_inverse cutoff u s s0 vt =
     (let cutoff' = cutoff * s0;
          large = map (\<lambda>si. si > cutoff') s;
          s_inv = map2 (\<lambda>si l. if l then 1 / si else 0) s large
      in matmul (transpose vt) (map2 (\<lambda>si row. map (\<lambda>x. si * x) row) s_inv (transpose u)))"

subsection \<open>The first-order step (lines 109 to 154)\<close>

text \<open>What the first-order block leaves for the rest of the call: the factors of
  \<open>Jx\<close>, its shape and the step \<open>dx1\<close>.\<close>

record first_order_state =
  fo_u :: mat
  fo_s :: vec
  fo_vt :: mat
  fo_m :: nat
  fo_n :: nat
  fo_dx1 :: vec

definition first_order ::
  "env \<Rightarrow> objective \<Rightarrow> perturb_args \<Rightarrow> (block \<times> ndvalue) list \<Rightarrow> args \<Rightarrow> vec \<Rightarrow>
   (error + first_order_state) \<times> event list" where
  "first_order E obj p deltas args y =
     (let (Jx, log1) = (case arg_Jx p of None \<Rightarrow> (jac_x obj args, [EvJacX]) | Some J \<Rightarrow> (J, []));
          (u, s, vt) = svd E Jx;
          m = length Jx;
          n = (case Jx of [] \<Rightarrow> 0 | r # _ \<Rightarrow> length r);
          log2 = log1 @ [EvSvd]
      in case s of
           [] \<Rightarrow> (Inl (IndexError ''s[0]''), log2)
         | s0 # _ \<Rightarrow>
             (let Jxi = pseudo_inverse (arg_cutoff p) u s s0 vt;
                  RHS = compute obj args;
                  inds = map (\<lambda>(key, val). arg_idx key) deltas;
                  dc = map (\<lambda>(key, val). val) deltas;
                  temp = jvp obj inds dc args;
                  log3 = log2 @ [EvCompute, EvJvp inds dc]
              in case nd_iadd RHS temp of
                   Inl e \<Rightarrow> (Inl e, log3)
                 | Inr RHS1 \<Rightarrow>
                     (let call = \<lparr>tr_n = n, tr_m = m, tr_f = RHS1, tr_u = u, tr_s = s,
                                  tr_v = transpose vt,
                                  tr_Delta = tr_times (arg_tr_ratio p) (nd_norm (Arr y)),
                                  tr_initial_alpha = None, tr_rtol = 1 / 100,
                                  tr_max_iter = 10, tr_threshold = 1 / 10 ^ 6\<rparr>;
                          log4 = log3 @ [EvTrStep call]
                      in case trust_region_step_exact E call of
                           Inl e \<Rightarrow> (Inl e, log4)
                         | Inr (dx1, hit, alpha) \<Rightarrow>
                             (Inr \<lparr>fo_u = u, fo_s = s, fo_vt = vt, fo_m = m, fo_n = n,
                                   fo_dx1 = dx1\<rparr>, log4))))"

subsection \<open>The second-order step (lines 157 to 205)\<close>

definition second_order ::
  "env \<Rightarrow> objective \<Rightarrow> perturb_args \<Rightarrow> (block \<times> ndvalue) list \<Rightarrow> args \<Rightarrow> first_order_state \<Rightarrow>
   (error + vec) \<times> event list" where
  "second_order E obj p deltas args fo =
     (let dx1 = Arr (fo_dx1 fo);
          temp1 = map (\<lambda>t. (1 / 2) * t) (jvp2 obj (ArgInt 0) (ArgInt 0) (TanArr dx1) (TanArr dx1) args);
          RHS = temp1;
          inds = map (\<lambda>(key, val). arg_idx key) deltas;
          dc = map (\<lambda>(key, val). val) deltas;
          temp2 = map (\<lambda>t. (1 / 2) * t)
                    (jvp2 obj (ArgTuple inds) (ArgTuple inds) (TanTuple dc) (TanTuple dc) args);
          log1 = [EvJvp2 (ArgInt 0) (ArgInt 0) (TanArr dx1) (TanArr dx1),
                  EvJvp2 (ArgTuple inds) (ArgTuple inds) (TanTuple dc) (TanTuple dc)]
      in case nd_iadd RHS temp2 of
           Inl e \<Rightarrow> (Inl e, log1)
         | Inr RHS2 \<Rightarrow>
             (let temp3 = jvp2 obj (ArgInt 0) (ArgTuple inds) (TanArr dx1) (TanTuple dc) args;
                  log2 = log1 @ [EvJvp2 (ArgInt 0) (ArgTuple inds) (TanArr dx1) (TanTuple dc)]
              in case nd_iadd RHS2 temp3 of
                   Inl e \<Rightarrow> (Inl e, log2)
                 | Inr RHS3 \<Rightarrow>
                     (let call = \<lparr>tr_n = fo_n fo, tr_m = fo_m fo, tr_f = RHS3, tr_u = fo_u fo,
                                  tr_s = fo_s fo, tr_v = transpose (fo_vt fo),
                                  tr_Delta = tr_times (arg_tr_ratio p) (nd_norm dx1),
                                  tr_initial_alpha = None, tr_rtol = 1 / 100,
                                  tr_max_iter = 10, tr_threshold = 1 / 10 ^ 6\<rparr>;
                          log3 = log2 @ [EvTrStep call]
                      in case trust_region_step_exact E call of
                           Inl e \<Rightarrow> (Inl e, log3)
                         | Inr (dx2, hit, alpha) \<Rightarrow> (Inr dx2, log3))))"

text \<open>
  Both steps. \<open>dx1\<close> and \<open>dx2\<close> start as the integer \<open>0\<close> (lines 99 and 100). The source
  tests \<open>order > 0\<close> and then \<open>order > 1\<close>; the second block reads the factors the first
  one bound, and runs only when the first one has run.
\<close>

definition steps ::
  "env \<Rightarrow> objective \<Rightarrow> perturb_args \<Rightarrow> (block \<times> ndvalue) list \<Rightarrow> args \<Rightarrow> vec \<Rightarrow>
   (error + ndvalue \<times> ndvalue) \<times> event list" where
  "steps E obj p deltas args y =
     (if arg_order p > 0 then
        (case first_order E obj p deltas args y of
           (Inl e, log1) \<Rightarrow> (Inl e, log1)
         | (Inr fo, log1) \<Rightarrow>
             if arg_order p > 1 then
               (case second_order E obj p deltas args fo of
                  (Inl e, log2) \<Rightarrow> (Inl e, log1 @ log2)
                | (Inr dx2, log2) \<Rightarrow> (Inr (Arr (fo_dx1 fo), Arr dx2), log1 @ log2))
             else (Inr (Arr (fo_dx1 fo), Scal 0), log1))
      else (Inr (Scal 0, Scal 0), []))"

subsection \<open>Applying the perturbation (lines 207 to 237)\<close>

text \<open>The loop over \<open>deltas.items()\<close> (lines 213 and 214). An addition that raises leaves
  the blocks updated so far.\<close>

fun apply_deltas :: "(block \<times> ndvalue) list \<Rightarrow> equilibrium \<Rightarrow> error option \<times> equilibrium" where
  "apply_deltas [] e = (None, e)"
| "apply_deltas ((key, dc) # rest) e =
     (case nd_add (get_block key e) dc of
        Inl err \<Rightarrow> (Some err, e)
      | Inr v \<Rightarrow> apply_deltas rest (set_block key v e))"

text \<open>Lines 212 to 231 on the equilibrium \<open>eq_new\<close>: the blocks, the boundary constraint
  when a boundary block changed, and the state vector when \<open>order > 0\<close>. The result is
  the exception raised, if any, the equilibrium as the lines leave it, and the events.\<close>

definition update_target ::
  "env \<Rightarrow> perturb_args \<Rightarrow> (block \<times> ndvalue) list \<Rightarrow> vec \<Rightarrow> ndvalue \<Rightarrow> ndvalue \<Rightarrow> equilibrium \<Rightarrow>
   error option \<times> equilibrium \<times> event list" where
  "update_target E p deltas y dx1 dx2 e0 =
     (let (err, e1) = apply_deltas deltas e0
      in case err of
           Some e \<Rightarrow> (Some e, e1, [])
         | None \<Rightarrow>
             (let rebuild = (Rb_mn \<in> set (map fst deltas) \<or> Zb_mn \<in> set (map fst deltas))
              in case (if rebuild then
                         (case eq_objective e1 of
                            None \<Rightarrow> Inl (AttributeError ''BC_constraint'')
                          | Some obj \<Rightarrow>
                              Inr (e1\<lparr>eq_objective := Some (obj\<lparr>BC_constraint :=
                                     BoundaryConstraint E (eq_R_basis e1) (eq_Z_basis e1) (eq_L_basis e1)
                                       (eq_Rb_basis e1) (eq_Zb_basis e1) (eq_Rb_mn e1) (eq_Zb_mn e1)\<rparr>)\<rparr>))
                       else Inr e1) of
                   Inl e \<Rightarrow> (Some e, e1, [])
                 | Inr e2 \<Rightarrow>
                     (let log2 = (if rebuild then [EvNewBC] else [])
                      in if arg_order p > 0 then
                           (case nd_add dx1 dx2 of
                              Inl e \<Rightarrow> (Some e, e2, log2)
                            | Inr dy \<Rightarrow>
                                (case eq_objective e2 of
                                   None \<Rightarrow> (Some (AttributeError ''BC_constraint''), e2, log2)
                                 | Some obj \<Rightarrow>
                                     (case nd_add (Arr y) dy of
                                        Inl e \<Rightarrow> (Some e, e2, log2)
                                      | Inr ydy \<Rightarrow>
                                          (None, set_x (recover (BC_constraint obj) ydy) e2,
                                           log2 @ [EvRecover]))))
                         else (None, e2, log2))))"

text \<open>Lines 207 to 211 choose \<open>eq_new\<close>, a copy or the input itself; the lines after them
  work on it.\<close>

definition apply_perturbation ::
  "env \<Rightarrow> perturb_args \<Rightarrow> (block \<times> ndvalue) list \<Rightarrow> vec \<Rightarrow> ndvalue \<Rightarrow> ndvalue \<Rightarrow> store \<Rightarrow> nat \<Rightarrow>
   (error + nat) \<times> store \<times> event list" where
  "apply_perturbation E p deltas y dx1 dx2 st a =
     (let (st1, new, log1) = (if arg_copy p then (let (s, n) = eq_copy st a in (s, n, [EvCopy]))
                              else (st, a, []));
          (err, e, log2) = update_target E p deltas y dx1 dx2 (st1 ! new)
      in ((case err of Some ex \<Rightarrow> Inl ex | None \<Rightarrow> Inr new), st1[new := e], log1 @ log2))"

subsection \<open>The whole call\<close>

text \<open>Lines 95 and 96.\<close>

definition ensure_built :: "env \<Rightarrow> int \<Rightarrow> equilibrium \<Rightarrow> equilibrium" where
  "ensure_built E verbose e = (if eq_built e then e else build E verbose e)"

text \<open>Lines 97 and 98.\<close>

definition objective_args :: "objective \<Rightarrow> equilibrium \<Rightarrow> args" where
  "objective_args obj e =
     (project (BC_constraint obj) (eq_x e),
      eq_Rb_mn e, eq_Zb_mn e, eq_p_l e, eq_i_l e, eq_Psi e, eq_zeta_ratio e)"

text \<open>
  \<open>perturb\<close> on the equilibrium at address \<open>a\<close> of the store: the object returned or the
  exception raised, the store afterwards and the events. The warning comes first (lines
  61 to 67), then the two checks of the objective (lines 68 to 75).
\<close>

definition perturb ::
  "env \<Rightarrow> perturb_args \<Rightarrow> store \<Rightarrow> nat \<Rightarrow> (error + nat) \<times> store \<times> event list" where
  "perturb E p st a =
     (let log0 = (if use_jax E then [] else [Warn fd_warning])
      in case eq_objective (st ! a) of
           None \<Rightarrow>
             (Inl (AttributeError ''Equilibrium must have objective defined before perturbing''),
              st, log0)
         | Some obj0 \<Rightarrow>
             if scalar obj0 then
               (Inl (AttributeError ''Cannot perturb with a scalar objective''), st, log0)
             else
               (let deltas = collect_deltas p;
                    st1 = st[a := ensure_built E (arg_verbose p) (st ! a)];
                    log1 = log0 @ (if eq_built (st ! a) then [] else [EvBuild (arg_verbose p)])
                in case eq_objective (st1 ! a) of
                     None \<Rightarrow> (Inl (AttributeError ''BC_constraint''), st1, log1)
                   | Some obj \<Rightarrow>
                       (let args = objective_args obj (st1 ! a);
                            y = fst args;
                            log2 = log1 @ [EvProject]
                        in case unpack_tr_ratio (arg_tr_ratio p) of
                             Inl e \<Rightarrow> (Inl e, st1, log2)
                           | Inr (tr_ratio1, tr_ratio2) \<Rightarrow>
                               (case steps E obj p deltas args y of
                                  (Inl e, log3) \<Rightarrow> (Inl e, st1, log2 @ log3)
                                | (Inr (dx1, dx2), log3) \<Rightarrow>
                                    (case apply_perturbation E p deltas y dx1 dx2 st1 a of
                                       (r, st2, log4) \<Rightarrow> (r, st2, log2 @ log3 @ log4))))))"

text \<open>The calls of the solver among the events, in order.\<close>

fun tr_calls :: "event list \<Rightarrow> tr_call list" where
  "tr_calls [] = []"
| "tr_calls (EvTrStep c # es) = c # tr_calls es"
| "tr_calls (e # es) = tr_calls es"

section \<open>Predicates of the statements\<close>

text \<open>Every delta argument is \<open>None\<close> or all zero.\<close>

definition none_or_zero :: "ndvalue option \<Rightarrow> bool" where
  "none_or_zero d = (case d of None \<Rightarrow> True | Some v \<Rightarrow> nd_all_zero v)"

definition all_deltas_none_or_zero :: "perturb_args \<Rightarrow> bool" where
  "all_deltas_none_or_zero p =
     (none_or_zero (arg_dRb p) \<and> none_or_zero (arg_dZb p) \<and> none_or_zero (arg_dp p) \<and>
      none_or_zero (arg_di p) \<and> none_or_zero (arg_dPsi p) \<and> none_or_zero (arg_dzeta_ratio p))"

text \<open>The state vector and the six parameter blocks of an equilibrium.\<close>

definition state_and_blocks ::
  "equilibrium \<Rightarrow> vec \<times> ndvalue \<times> ndvalue \<times> ndvalue \<times> ndvalue \<times> ndvalue \<times> ndvalue" where
  "state_and_blocks e =
     (eq_x e, eq_Rb_mn e, eq_Zb_mn e, eq_p_l e, eq_i_l e, eq_Psi e, eq_zeta_ratio e)"

text \<open>The blocks \<open>R_lmn\<close> and \<open>Z_lmn\<close> have as many entries as their bases have modes.\<close>

definition blocks_sized :: "('a configuration_scheme) \<Rightarrow> bool" where
  "blocks_sized c =
     (length (eq_R_lmn c) = num_modes (eq_R_basis c) \<and>
      length (eq_Z_lmn c) = num_modes (eq_Z_basis c))"

section \<open>A small equilibrium\<close>

text \<open>
  One mode per basis, a state vector of three entries whose first two are the reduced
  coordinate, a residual of two entries, and a Jacobian with singular values \<open>1\<close> and
  \<open>1/10\<close>. The statements below are evaluated on it.
\<close>

definition ex_basis :: basis where
  "ex_basis = \<lparr>modes = [(0, 0, 0)]\<rparr>"

definition ex_bc :: bc_constraint where
  "ex_bc = \<lparr>project = take 2,
            recover = (\<lambda>v. case v of Arr w \<Rightarrow> w @ [0] | Scal r \<Rightarrow> [r])\<rparr>"

definition ex_objective :: objective where
  "ex_objective =
     \<lparr>scalar = False,
      compute = (\<lambda>a. [1, 2]),
      jac_x = (\<lambda>a. [[1, 0], [0, 1 / 10]]),
      jvp = (\<lambda>inds dc a. [real (length inds), 0]),
      jvp2 = (\<lambda>i j d e a. case (i, j) of
                (ArgInt _, ArgInt _) \<Rightarrow> [4, 6]
              | (ArgTuple _, ArgTuple _) \<Rightarrow> [10, 20]
              | _ \<Rightarrow> [100, 200]),
      BC_constraint = ex_bc\<rparr>"

definition ex_eq :: equilibrium where
  "ex_eq =
     \<lparr>eq_sym = False, eq_Psi = Scal 1, eq_NFP = 1, eq_L = 0, eq_M = 0, eq_N = 0,
      eq_x = [3, 4, 0], eq_R_lmn = [3], eq_Z_lmn = [4], eq_L_lmn = [0],
      eq_Rb_mn = Arr [2], eq_Zb_mn = Arr [0], eq_p_l = Arr [0], eq_i_l = Arr [0],
      eq_R_basis = ex_basis, eq_Z_basis = ex_basis, eq_L_basis = ex_basis,
      eq_Rb_basis = ex_basis, eq_Zb_basis = ex_basis, eq_p_basis = ex_basis,
      eq_i_basis = ex_basis, eq_index = ''ansi'', eq_bdry_mode = ''spectral'',
      eq_zeta_ratio = Scal 1, eq_R_sym = None, eq_Z_sym = None,
      eq_parent = None, eq_children = [],
      eq_objective = Some ex_objective, eq_built = True\<rparr>"

definition ex_env :: env where
  "ex_env =
     \<lparr>use_jax = True,
      svd = (\<lambda>J. ([[1, 0], [0, 1]], [1, 1 / 10], [[1, 0], [0, 1]])),
      trust_region_step_exact = (\<lambda>c. Inr ([3, 0], False, 0)),
      BoundaryConstraint = (\<lambda>rb zb lb rbb zbb rmn zmn. ex_bc),
      build = (\<lambda>v e. e\<lparr>eq_built := True\<rparr>)\<rparr>"



definition ex_fzb :: fzb_ctor where
  "ex_fzb = (\<lambda>l m n nfp sym idx. \<lparr>modes = [(0, 0, 0), (1, 1, 0)]\<rparr>)"

definition ex_cc :: copy_coeffs where
  "ex_cc = (\<lambda>v old new. take (length new) (v @ replicate (length new) 0))"

section \<open>Evaluation of the example\<close>

lemmas ex_defs = ex_env_def ex_eq_def ex_objective_def ex_bc_def ex_basis_def default_args_def

lemmas model_defs = perturb_def collect_deltas_def delta_entry_def ensure_built_def
  objective_args_def steps_def first_order_def second_order_def nd_iadd_def
  apply_perturbation_def update_target_def eq_copy_def deepcopy_def refs_def set_x_def
  unpack_state_def
  num_modes_def Let_def

lemma ex_perturb_default_result:
  "fst (perturb ex_env default_args [ex_eq] 0) = Inr 1"
  by (simp add: ex_defs model_defs)

lemma ex_tr_calls_default:
  "map tr_threshold (tr_calls (snd (snd (perturb ex_env default_args [ex_eq] 0))))
     = [1 / 10 ^ 6, 1 / 10 ^ 6]"
  by (simp add: ex_defs model_defs)

lemma ex_pseudo_inverse_half:
  "pseudo_inverse (1 / 2) [[1, 0], [0, 1]] [1, 1 / 10] 1 [[1, 0], [0, 1]] = [[1, 0], [0, 0]]"
  by (simp add: pseudo_inverse_def matmul_def transpose.simps Let_def)

lemma ex_pseudo_inverse_default:
  "pseudo_inverse (1 / 10 ^ 6) [[1, 0], [0, 1]] [1, 1 / 10] 1 [[1, 0], [0, 1]]
     = [[1, 0], [0, 10]]"
  by (simp add: pseudo_inverse_def matmul_def transpose.simps Let_def)

section \<open>Arguments that do not reach the result\<close>

lemma first_order_cutoff:
  "first_order E obj (p\<lparr>arg_cutoff := c\<rparr>) deltas args y = first_order E obj p deltas args y"
  by (simp add: first_order_def Let_def split: option.splits prod.splits list.splits sum.splits)

lemma second_order_cutoff:
  "second_order E obj (p\<lparr>arg_cutoff := c\<rparr>) deltas args fo = second_order E obj p deltas args fo"
  by (simp add: second_order_def Let_def split: option.splits prod.splits list.splits sum.splits)

lemma steps_cutoff:
  "steps E obj (p\<lparr>arg_cutoff := c\<rparr>) deltas args y = steps E obj p deltas args y"
  by (simp add: steps_def first_order_cutoff second_order_cutoff split: prod.splits sum.splits)

lemma update_target_cutoff:
  "update_target E (p\<lparr>arg_cutoff := c\<rparr>) deltas y dx1 dx2 e = update_target E p deltas y dx1 dx2 e"
  by (simp add: update_target_def Let_def split: option.splits prod.splits sum.splits)

lemma apply_perturbation_cutoff:
  "apply_perturbation E (p\<lparr>arg_cutoff := c\<rparr>) deltas y dx1 dx2 st a
     = apply_perturbation E p deltas y dx1 dx2 st a"
  by (simp add: apply_perturbation_def update_target_cutoff)

lemma collect_deltas_cutoff: "collect_deltas (p\<lparr>arg_cutoff := c\<rparr>) = collect_deltas p"
  by (simp add: collect_deltas_def)

lemma perturb_ignores_cutoff:
  "perturb E (p\<lparr>arg_cutoff := c\<rparr>) st a = perturb E p st a"
  by (simp add: perturb_def steps_cutoff apply_perturbation_cutoff collect_deltas_cutoff Let_def
      split: option.splits sum.splits prod.splits)

lemma first_order_use_jax:
  "first_order (E\<lparr>use_jax := b\<rparr>) obj p deltas args y = first_order E obj p deltas args y"
  by (simp add: first_order_def Let_def split: option.splits prod.splits list.splits sum.splits)

lemma second_order_use_jax:
  "second_order (E\<lparr>use_jax := b\<rparr>) obj p deltas args fo = second_order E obj p deltas args fo"
  by (simp add: second_order_def Let_def split: option.splits prod.splits list.splits sum.splits)

lemma steps_use_jax:
  "steps (E\<lparr>use_jax := b\<rparr>) obj p deltas args y = steps E obj p deltas args y"
  by (simp add: steps_def first_order_use_jax second_order_use_jax split: prod.splits sum.splits)

lemma update_target_use_jax:
  "update_target (E\<lparr>use_jax := b\<rparr>) p deltas y dx1 dx2 e = update_target E p deltas y dx1 dx2 e"
  by (simp add: update_target_def Let_def split: option.splits prod.splits sum.splits)

lemma apply_perturbation_use_jax:
  "apply_perturbation (E\<lparr>use_jax := b\<rparr>) p deltas y dx1 dx2 st a
     = apply_perturbation E p deltas y dx1 dx2 st a"
  by (simp add: apply_perturbation_def update_target_use_jax)

lemma ensure_built_use_jax: "ensure_built (E\<lparr>use_jax := b\<rparr>) v e = ensure_built E v e"
  by (simp add: ensure_built_def)

section \<open>The radius of the trust region\<close>

text \<open>
  Claim C1. With \<open>tr_ratio\<close> an array \<open>(r1, r2)\<close> the first subproblem should get the radius
  \<open>r1 * norm y\<close> and the second \<open>r2 * norm dx1\<close>. The source unpacks the array into
  \<open>tr_ratio1\<close> and \<open>tr_ratio2\<close> and then multiplies \<open>tr_ratio\<close> itself at both calls. On the
  example, with the array \<open>(1/10, 1/5)\<close>, \<open>norm y = 5\<close> and \<open>norm dx1 = 3\<close>, both calls
  receive an array of two radii instead of the scalars \<open>1/10 * 5\<close> and \<open>1/5 * 3\<close>.
\<close>

theorem tr_ratio_pair_reaches_the_solver_whole:
  "map tr_Delta
     (tr_calls (snd (snd (perturb ex_env (default_args\<lparr>arg_tr_ratio := TrSeq [1 / 10, 1 / 5]\<rparr>)
        [ex_eq] 0))))
     = [Arr [1 / 10 * nd_norm (Arr (project ex_bc (eq_x ex_eq))),
             1 / 5 * nd_norm (Arr (project ex_bc (eq_x ex_eq)))],
        Arr [1 / 10 * nd_norm (Arr [3, 0]), 1 / 5 * nd_norm (Arr [3, 0])]]
   \<and> map tr_Delta
     (tr_calls (snd (snd (perturb ex_env (default_args\<lparr>arg_tr_ratio := TrSeq [1 / 10, 1 / 5]\<rparr>)
        [ex_eq] 0))))
     \<noteq> [Scal (1 / 10 * nd_norm (Arr (project ex_bc (eq_x ex_eq)))),
         Scal (1 / 5 * nd_norm (Arr [3, 0]))]
   \<and> nd_norm (Arr (project ex_bc (eq_x ex_eq))) = 5
   \<and> nd_norm (Arr [3, 0]) = 3"
  by (simp add: ex_defs model_defs)

section \<open>The cutoff of the pseudo-inverse\<close>

text \<open>
  Claim C4. The caller's \<open>cutoff\<close> should be the relative threshold of the
  pseudo-inversion that produces the step. The source uses it for the matrix \<open>Jxi\<close>
  only, which nothing reads; the step comes from the solver, which is handed the constant
  threshold \<open>1e-6\<close>. On the example the singular values are \<open>1\<close> and \<open>1/10\<close>: the cutoff
  \<open>1/2\<close> drops the second one from \<open>Jxi\<close> and the default keeps it, yet the two calls of
  \<open>perturb\<close> agree in result, store and events, and both solves get the threshold \<open>1e-6\<close>.
\<close>

theorem cutoff_argument_does_not_reach_the_step:
  "pseudo_inverse (1 / 2) [[1, 0], [0, 1]] [1, 1 / 10] 1 [[1, 0], [0, 1]]
     \<noteq> pseudo_inverse (1 / 10 ^ 6) [[1, 0], [0, 1]] [1, 1 / 10] 1 [[1, 0], [0, 1]]
   \<and> perturb ex_env (default_args\<lparr>arg_cutoff := 1 / 2\<rparr>) [ex_eq] 0
       = perturb ex_env (default_args\<lparr>arg_cutoff := 1 / 10 ^ 6\<rparr>) [ex_eq] 0
   \<and> map tr_threshold
         (tr_calls (snd (snd (perturb ex_env (default_args\<lparr>arg_cutoff := 1 / 2\<rparr>) [ex_eq] 0))))
       = [1 / 10 ^ 6, 1 / 10 ^ 6]"
proof -
  have a: "pseudo_inverse (1 / 2) [[1, 0], [0, 1]] [1, 1 / 10] 1 [[1, 0], [0, 1]]
     \<noteq> pseudo_inverse (1 / 10 ^ 6) [[1, 0], [0, 1]] [1, 1 / 10] 1 [[1, 0], [0, 1]]"
    unfolding ex_pseudo_inverse_half ex_pseudo_inverse_default by simp
  have b: "perturb ex_env (default_args\<lparr>arg_cutoff := 1 / 2\<rparr>) [ex_eq] 0
       = perturb ex_env (default_args\<lparr>arg_cutoff := 1 / 10 ^ 6\<rparr>) [ex_eq] 0"
    unfolding perturb_ignores_cutoff by (rule refl)
  have c: "map tr_threshold
         (tr_calls (snd (snd (perturb ex_env (default_args\<lparr>arg_cutoff := 1 / 2\<rparr>) [ex_eq] 0))))
       = [1 / 10 ^ 6, 1 / 10 ^ 6]"
    unfolding perturb_ignores_cutoff by (rule ex_tr_calls_default)
  show ?thesis using a b c by blast
qed

section \<open>The checks of the objective\<close>

text \<open>
  Claim C5. On an equilibrium that has no objective, or whose objective is scalar,
  \<open>perturb\<close> raises before anything is computed and leaves the equilibrium as it was: the
  store is returned unchanged and the events hold no call of a collaborator, only the
  warning about finite differences when JAX is not in use. The exception the source
  raises in both cases is Python's \<open>AttributeError\<close>, its error for a wrong configuration.
\<close>

theorem perturb_rejects_missing_or_scalar_objective:
  assumes "eq_objective (st ! a) = None \<or> (\<exists>obj. eq_objective (st ! a) = Some obj \<and> scalar obj)"
  shows "\<exists>msg. perturb E p st a =
           (Inl (AttributeError msg), st, if use_jax E then [] else [Warn fd_warning])"
  using assms by (auto simp: perturb_def)

text \<open>Both cases on the example.\<close>

theorem perturb_rejects_witness:
  "(\<exists>msg. perturb ex_env default_args [ex_eq\<lparr>eq_objective := None\<rparr>] 0
      = (Inl (AttributeError msg), [ex_eq\<lparr>eq_objective := None\<rparr>], []))
   \<and> (\<exists>msg. perturb ex_env default_args
              [ex_eq\<lparr>eq_objective := Some (ex_objective\<lparr>scalar := True\<rparr>)\<rparr>] 0
      = (Inl (AttributeError msg),
         [ex_eq\<lparr>eq_objective := Some (ex_objective\<lparr>scalar := True\<rparr>)\<rparr>], []))"
  using perturb_rejects_missing_or_scalar_objective
          [of "[ex_eq\<lparr>eq_objective := None\<rparr>]" 0 ex_env default_args]
        perturb_rejects_missing_or_scalar_objective
          [of "[ex_eq\<lparr>eq_objective := Some (ex_objective\<lparr>scalar := True\<rparr>)\<rparr>]" 0
              ex_env default_args]
  by (simp add: ex_env_def)

section \<open>The invariant of the state vector\<close>

lemma unpack_state_concat:
  "unpack_state x nR nZ = (R, Z, L) \<Longrightarrow> R @ Z @ L = x"
  by (auto simp: unpack_state_def) (metis append_take_drop_id drop_drop add.commute)

lemma unpack_state_of_concat:
  "length R = nR \<Longrightarrow> length Z = nZ \<Longrightarrow> unpack_state (R @ Z @ L) nR nZ = (R, Z, L)"
  by (simp add: unpack_state_def)

lemma concat_sized_inv: "x_is_concat c \<Longrightarrow> blocks_sized c \<Longrightarrow> state_inv c"
  by (simp add: state_inv_def x_is_concat_def blocks_sized_def blocks_are_unpacked_def
      unpack_state_of_concat)

lemma set_x_inv: "state_inv (set_x x c)"
  by (auto simp: state_inv_def x_is_concat_def blocks_are_unpacked_def set_x_def Let_def
      split: prod.splits dest: unpack_state_concat)

lemma set_block_concat:
  "x_is_concat (set_R_lmn R c)" "x_is_concat (set_Z_lmn Z c)" "x_is_concat (set_L_lmn L c)"
  by (simp_all add: x_is_concat_def set_R_lmn_def set_Z_lmn_def set_L_lmn_def Let_def)

lemma length_put: "length (put x idx v) = length x"
proof -
  have "length (fold (\<lambda>i y. y[i := v]) idx x) = length x" for x
    by (induction idx arbitrary: x) auto
  then show ?thesis by (simp add: put_def)
qed

lemma length_initial_guess_loop:
  "initial_guess_loop xb b_mn axis ms k x = Inr r \<Longrightarrow> length r = length x"
  by (induction xb b_mn axis ms k x rule: initial_guess_loop.induct)
     (auto simp: Let_def length_put split: if_splits list.splits prod.splits)

lemma length_initial_guess:
  "initial_guess xb b_mn bb axis = Inr r \<Longrightarrow> length r = num_modes xb"
  by (auto simp: initial_guess_def dest: length_initial_guess_loop)

lemma store_resolution_unchanged:
  "store_resolution L M N c = (c1, False) \<Longrightarrow> c1 = c"
  by (auto simp: store_resolution_def Let_def split: option.splits)

lemma rebuild_bases_concat: "x_is_concat (rebuild_bases FZB cc c)"
  by (simp add: rebuild_bases_def x_is_concat_def Let_def)

lemma rebuild_bases_sized:
  "\<forall>v old new. length (cc v old new) = length new \<Longrightarrow> blocks_sized (rebuild_bases FZB cc c)"
  by (simp add: rebuild_bases_def blocks_sized_def num_modes_def Let_def)

lemma change_resolution_concat:
  "x_is_concat c \<Longrightarrow> x_is_concat (change_resolution FZB cc L M N c)"
  by (auto simp: change_resolution_def rebuild_bases_concat split: prod.splits
      dest: store_resolution_unchanged)

lemma change_resolution_sized:
  assumes "blocks_sized c" and "\<forall>v old new. length (cc v old new) = length new"
  shows "blocks_sized (change_resolution FZB cc L M N c)"
  using assms
  by (auto simp: change_resolution_def rebuild_bases_sized split: prod.splits
      dest: store_resolution_unchanged)

lemma init_state_concat:
  "init_state ix iR iZ iL iax bdry Rb Zb c = Inr c' \<Longrightarrow> x_is_concat c'"
  by (auto simp: init_state_def Let_def x_is_concat_def
      split: option.splits sum.splits prod.splits dest: unpack_state_concat)

lemma init_state_from_x:
  "init_state (Some x) iR iZ iL iax bdry Rb Zb c = Inr c' \<Longrightarrow> state_inv c'"
  by (auto simp: init_state_def Let_def state_inv_def x_is_concat_def blocks_are_unpacked_def
      split: prod.splits dest: unpack_state_concat)

lemma init_state_guess_sized:
  "init_state None None None iL iax bdry Rb Zb c = Inr c' \<Longrightarrow> blocks_sized c'"
  by (auto simp: init_state_def Let_def blocks_sized_def
      split: option.splits sum.splits dest: length_initial_guess)

text \<open>
  Claim C10, as amended. After the setter of \<open>x\<close>, after each setter of a block, after
  \<open>change_resolution\<close> and after the state block of the constructor, \<open>x\<close> is the
  concatenation of \<open>R_lmn\<close>, \<open>Z_lmn\<close> and \<open>L_lmn\<close> (for a \<open>change_resolution\<close> that changes
  nothing: when it was before). The blocks are the unpacking of \<open>x\<close> at the mode counts
  after the setter of \<open>x\<close> and after construction from a given \<open>x\<close>; after the other
  operations they are when \<open>R_lmn\<close> and \<open>Z_lmn\<close> have as many entries as their bases have
  modes. That holds for the blocks \<open>initial_guess\<close> builds, and after \<open>change_resolution\<close>
  when it held before and \<open>copy_coeffs\<close> returns one coefficient per new mode; the setters
  do not check it.
\<close>

theorem state_vector_invariant:
  fixes c :: "'a configuration_scheme"
  shows
  "state_inv (set_x x c)
   \<and> x_is_concat (set_R_lmn R c) \<and> (blocks_sized (set_R_lmn R c) \<longrightarrow> state_inv (set_R_lmn R c))
   \<and> x_is_concat (set_Z_lmn Z c) \<and> (blocks_sized (set_Z_lmn Z c) \<longrightarrow> state_inv (set_Z_lmn Z c))
   \<and> x_is_concat (set_L_lmn L c) \<and> (blocks_sized (set_L_lmn L c) \<longrightarrow> state_inv (set_L_lmn L c))
   \<and> (x_is_concat c \<longrightarrow> x_is_concat (change_resolution FZB cc Lo Mo No c))
   \<and> (x_is_concat c \<and> blocks_sized c \<and> (\<forall>v old new. length (cc v old new) = length new)
        \<longrightarrow> state_inv (change_resolution FZB cc Lo Mo No c))
   \<and> (init_state ix iR iZ iL iax bdry Rb Zb c = Inr c'
        \<longrightarrow> x_is_concat c'
            \<and> (ix \<noteq> None \<or> (iR = None \<and> iZ = None) \<or> blocks_sized c' \<longrightarrow> state_inv c'))"
proof -
  have ch: "x_is_concat c \<and> blocks_sized c \<and> (\<forall>v old new. length (cc v old new) = length new)
        \<longrightarrow> state_inv (change_resolution FZB cc Lo Mo No c)"
    by (blast intro: concat_sized_inv change_resolution_concat change_resolution_sized)
  have ini: "init_state ix iR iZ iL iax bdry Rb Zb c = Inr c'
        \<longrightarrow> x_is_concat c'
            \<and> (ix \<noteq> None \<or> (iR = None \<and> iZ = None) \<or> blocks_sized c' \<longrightarrow> state_inv c')"
  proof (intro impI conjI)
    assume i: "init_state ix iR iZ iL iax bdry Rb Zb c = Inr c'"
    show xc: "x_is_concat c'" using i by (rule init_state_concat)
    assume "ix \<noteq> None \<or> (iR = None \<and> iZ = None) \<or> blocks_sized c'"
    then consider (x) "ix \<noteq> None" | (g) "ix = None" "iR = None" "iZ = None" | (s) "blocks_sized c'"
      by blast
    then show "state_inv c'"
    proof cases
      case x
      then obtain v where "ix = Some v" by blast
      with i show ?thesis by (auto dest: init_state_from_x)
    next
      case g
      with i have "blocks_sized c'" by (auto dest: init_state_guess_sized)
      with xc show ?thesis by (rule concat_sized_inv)
    next
      case s
      with xc show ?thesis by (rule concat_sized_inv)
    qed
  qed
  show ?thesis
  proof (intro conjI)
    show "state_inv (set_x x c)" by (rule set_x_inv)
    show "x_is_concat (set_R_lmn R c)" by (rule set_block_concat)
    show "x_is_concat (set_Z_lmn Z c)" by (rule set_block_concat)
    show "x_is_concat (set_L_lmn L c)" by (rule set_block_concat)
    show "blocks_sized (set_R_lmn R c) \<longrightarrow> state_inv (set_R_lmn R c)"
      using set_block_concat(1) [of R c] by (auto intro: concat_sized_inv)
    show "blocks_sized (set_Z_lmn Z c) \<longrightarrow> state_inv (set_Z_lmn Z c)"
      using set_block_concat(2) [of Z c] by (auto intro: concat_sized_inv)
    show "blocks_sized (set_L_lmn L c) \<longrightarrow> state_inv (set_L_lmn L c)"
      using set_block_concat(3) [of L c] by (auto intro: concat_sized_inv)
    show "x_is_concat c \<longrightarrow> x_is_concat (change_resolution FZB cc Lo Mo No c)"
      by (auto intro: change_resolution_concat)
    show "x_is_concat c \<and> blocks_sized c \<and> (\<forall>v old new. length (cc v old new) = length new)
        \<longrightarrow> state_inv (change_resolution FZB cc Lo Mo No c)"
      by (rule ch)
    show "init_state ix iR iZ iL iax bdry Rb Zb c = Inr c'
        \<longrightarrow> x_is_concat c'
            \<and> (ix \<noteq> None \<or> (iR = None \<and> iZ = None) \<or> blocks_sized c' \<longrightarrow> state_inv c')"
      by (rule ini)
  qed
qed

text \<open>
  The claim as stated fails: on the example each basis has one mode, and assigning two
  coefficients to \<open>R_lmn\<close> gives \<open>x = [1, 5, 4, 0]\<close>, whose unpacking at the mode counts is
  \<open>[1]\<close>, \<open>[5]\<close>, \<open>[4, 0]\<close> and not the three blocks.
\<close>

theorem block_setter_breaks_unpacking:
  "\<not> blocks_are_unpacked (set_R_lmn [1, 5] ex_eq) \<and> \<not> state_inv (set_R_lmn [1, 5] ex_eq)"
  by (simp add: state_inv_def blocks_are_unpacked_def set_R_lmn_def ex_eq_def ex_basis_def
      unpack_state_def num_modes_def Let_def)

text \<open>The invariant on the example: after each setter with blocks of the right size,
  after a change of resolution to two modes per basis, and after construction from the
  boundary.\<close>

theorem state_vector_invariant_witness:
  "state_inv (set_x [7, 8, 9] ex_eq)
   \<and> state_inv (set_R_lmn [5] ex_eq) \<and> state_inv (set_Z_lmn [5] ex_eq) \<and> state_inv (set_L_lmn [5, 6] ex_eq)
   \<and> state_inv (change_resolution ex_fzb ex_cc (Some 1) (Some 1) None ex_eq)
   \<and> eq_x (change_resolution ex_fzb ex_cc (Some 1) (Some 1) None ex_eq) = [3, 0, 4, 0, 0, 0]
   \<and> (\<exists>c'. init_state None None None None None [(0, 0, 2, 0)] [2] [0] ex_eq = Inr c' \<and> state_inv c')"
proof -
  have xc: "x_is_concat ex_eq" and bs: "blocks_sized ex_eq"
    by (simp_all add: x_is_concat_def blocks_sized_def ex_eq_def ex_basis_def num_modes_def)
  have cc: "\<forall>v old new. length (ex_cc v old new) = length new"
    by (auto simp: ex_cc_def)
  have s1: "blocks_sized (set_R_lmn [5] ex_eq)" "blocks_sized (set_Z_lmn [5] ex_eq)"
    "blocks_sized (set_L_lmn [5, 6] ex_eq)"
    by (simp_all add: blocks_sized_def set_R_lmn_def set_Z_lmn_def set_L_lmn_def ex_eq_def
        ex_basis_def num_modes_def Let_def)
  have x: "eq_x (change_resolution ex_fzb ex_cc (Some 1) (Some 1) None ex_eq) = [3, 0, 4, 0, 0, 0]"
    by (simp add: change_resolution_def store_resolution_def rebuild_bases_def ex_fzb_def ex_cc_def
        ex_eq_def ex_basis_def Let_def)
  obtain c' where i: "init_state None None None None None [(0, 0, 2, 0)] [2] [0] ex_eq = Inr c'"
    by (simp add: init_state_def initial_guess_def where_idx_def put_def ex_eq_def ex_basis_def
        num_modes_def Let_def)
  note T = state_vector_invariant [of "[7, 8, 9]" ex_eq "[5]" "[5]" "[5, 6]" ex_fzb ex_cc
            "Some 1" "Some 1" None None None None None None "[(0, 0, 2, 0)]" "[2]" "[0]" c']
  have a: "state_inv (set_x [7, 8, 9] ex_eq)" using T by blast
  have b: "state_inv (set_R_lmn [5] ex_eq)" using T s1(1) by blast
  have c: "state_inv (set_Z_lmn [5] ex_eq)" using T s1(2) by blast
  have d: "state_inv (set_L_lmn [5, 6] ex_eq)" using T s1(3) by blast
  have e: "state_inv (change_resolution ex_fzb ex_cc (Some 1) (Some 1) None ex_eq)"
    using T xc bs cc by blast
  have f: "state_inv c'" using T i by blast
  show ?thesis using a b c d e f x i by blast
qed

section \<open>Copies in the store\<close>

lemma reach_superset: "set as \<subseteq> set (reach k st as)"
  by (induction k st as rule: reach.induct) auto

lemma index_of_less: "a \<in> set R \<Longrightarrow> index_of R a < length R"
  by (induction R) auto

lemma nth_index_of: "a \<in> set R \<Longrightarrow> R ! index_of R a = a"
  by (induction R) auto

lemma deepcopy_props:
  assumes "a < length st" and "deepcopy st a = (st1, new)"
  shows "length st \<le> new" and "new < length st1" and "length st \<le> length st1"
    and "\<forall>b < length st. st1 ! b = st ! b"
    and "\<exists>q ch. st1 ! new = (st ! a)\<lparr>eq_parent := q, eq_children := ch\<rparr>"
proof -
  define R where "R = reach (length st) st [a]"
  have aR: "a \<in> set R" using reach_superset[of "[a]" "length st" st] by (simp add: R_def)
  have i: "index_of R a < length R" using aR by (rule index_of_less)
  have n: "R ! index_of R a = a" using aR by (rule nth_index_of)
  from assms(2) have new: "new = length st + index_of R a"
    and st1: "st1 = st @ map (\<lambda>r. (st ! r)\<lparr>eq_parent := map_option (\<lambda>r. length st + index_of R r) (eq_parent (st ! r)),
                                eq_children := map (\<lambda>r. length st + index_of R r) (eq_children (st ! r))\<rparr>) R"
    by (auto simp: deepcopy_def Let_def R_def)
  show "length st \<le> new" using new by simp
  show "new < length st1" using new st1 i by simp
  show "length st \<le> length st1" using st1 by simp
  show "\<forall>b < length st. st1 ! b = st ! b" using st1 by (simp add: nth_append)
  show "\<exists>q ch. st1 ! new = (st ! a)\<lparr>eq_parent := q, eq_children := ch\<rparr>"
    using new st1 i n by (auto simp: nth_append)
qed

lemma eq_copy_props:
  assumes "a < length st" and "eq_copy st a = (st', new)"
  shows "length st \<le> new" and "new < length st'"
    and "st' ! a = (st ! a)\<lparr>eq_children := eq_children (st ! a) @ [new]\<rparr>"
    and "\<forall>b < length st. b \<noteq> a \<longrightarrow> st' ! b = st ! b"
    and "\<exists>ch. st' ! new = (st ! a)\<lparr>eq_parent := Some a, eq_children := ch\<rparr>"
proof -
  obtain st1 where d: "deepcopy st a = (st1, new)"
    and st': "st' = (st1[new := (st1 ! new)\<lparr>eq_parent := Some a\<rparr>])
                     [a := ((st1[new := (st1 ! new)\<lparr>eq_parent := Some a\<rparr>]) ! a)
                             \<lparr>eq_children := eq_children ((st1[new := (st1 ! new)\<lparr>eq_parent := Some a\<rparr>]) ! a) @ [new]\<rparr>]"
    using assms(2) by (auto simp: eq_copy_def Let_def split: prod.splits)
  note p = deepcopy_props[OF assms(1) d]
  have ne: "new \<noteq> a" using p(1) assms(1) by simp
  have a1: "a < length st1" using p(3) assms(1) by simp
  show "length st \<le> new" by (rule p(1))
  show "new < length st'" using p(2) st' by simp
  show "st' ! a = (st ! a)\<lparr>eq_children := eq_children (st ! a) @ [new]\<rparr>"
    using st' ne a1 p(4) assms(1) by simp
  show "\<forall>b < length st. b \<noteq> a \<longrightarrow> st' ! b = st ! b"
    using st' p(1) p(4) by auto
  from p(5) obtain q ch where "st1 ! new = (st ! a)\<lparr>eq_parent := q, eq_children := ch\<rparr>" by blast
  then show "\<exists>ch. st' ! new = (st ! a)\<lparr>eq_parent := Some a, eq_children := ch\<rparr>"
    using st' ne p(2) by (intro exI[of _ ch]) simp
qed

section \<open>The structure of a call\<close>

lemma tr_calls_append: "tr_calls (xs @ ys) = tr_calls xs @ tr_calls ys"
  by (induction xs rule: tr_calls.induct) simp_all

lemma apply_perturbation_no_tr_calls:
  "tr_calls (snd (snd (apply_perturbation E p deltas y dx1 dx2 st a))) = []"
  by (simp add: apply_perturbation_def update_target_def Let_def tr_calls_append
      split: option.splits prod.splits sum.splits)

lemma perturb_unfold:
  assumes "a < length st"
    and "eq_objective (st ! a) = Some obj0" and "\<not> scalar obj0"
    and "eq_objective (ensure_built E (arg_verbose p) (st ! a)) = Some obj"
    and "unpack_tr_ratio (arg_tr_ratio p) = Inr tr"
  shows "perturb E p st a =
     (case steps E obj p (collect_deltas p)
             (objective_args obj (ensure_built E (arg_verbose p) (st ! a)))
             (fst (objective_args obj (ensure_built E (arg_verbose p) (st ! a)))) of
        (Inl er, evs) \<Rightarrow>
          (Inl er, st[a := ensure_built E (arg_verbose p) (st ! a)],
           (if use_jax E then [] else [Warn fd_warning])
           @ (if eq_built (st ! a) then [] else [EvBuild (arg_verbose p)]) @ [EvProject] @ evs)
      | (Inr (dx1, dx2), evs) \<Rightarrow>
          (case apply_perturbation E p (collect_deltas p)
                  (fst (objective_args obj (ensure_built E (arg_verbose p) (st ! a))))
                  dx1 dx2 (st[a := ensure_built E (arg_verbose p) (st ! a)]) a of
             (r, st2, evs') \<Rightarrow>
               (r, st2,
                (if use_jax E then [] else [Warn fd_warning])
                @ (if eq_built (st ! a) then [] else [EvBuild (arg_verbose p)]) @ [EvProject]
                @ evs @ evs')))"
  using assms
  by (cases tr) (simp add: perturb_def Let_def split: prod.splits sum.splits)

lemma perturb_tr_calls:
  assumes "a < length st"
    and "eq_objective (st ! a) = Some obj0" and "\<not> scalar obj0"
    and "eq_objective (ensure_built E (arg_verbose p) (st ! a)) = Some obj"
    and "unpack_tr_ratio (arg_tr_ratio p) = Inr tr"
  shows "tr_calls (snd (snd (perturb E p st a))) =
     tr_calls (snd (steps E obj p (collect_deltas p)
             (objective_args obj (ensure_built E (arg_verbose p) (st ! a)))
             (fst (objective_args obj (ensure_built E (arg_verbose p) (st ! a))))))"
proof -
  have n: "tr_calls evs' = []"
    if "apply_perturbation E p deltas y dx1 dx2 s b = (r, st2, evs')"
    for deltas y dx1 dx2 s b r st2 evs'
    using apply_perturbation_no_tr_calls [of E p deltas y dx1 dx2 s b] that by simp
  show ?thesis
    unfolding perturb_unfold [OF assms]
    by (auto simp: tr_calls_append split: prod.splits sum.splits dest: n)
qed

lemma first_order_success:
  assumes "svd E (case arg_Jx p of None \<Rightarrow> jac_x obj args | Some J \<Rightarrow> J) = (u, s, vt)"
    and "s \<noteq> []"
    and "nd_iadd (compute obj args)
           (jvp obj (map (\<lambda>(key, val). arg_idx key) deltas) (map (\<lambda>(key, val). val) deltas) args)
         = Inr RHS1"
    and "c1 = \<lparr>tr_n = (case (case arg_Jx p of None \<Rightarrow> jac_x obj args | Some J \<Rightarrow> J) of
                        [] \<Rightarrow> 0 | r # _ \<Rightarrow> length r),
               tr_m = length (case arg_Jx p of None \<Rightarrow> jac_x obj args | Some J \<Rightarrow> J),
               tr_f = RHS1, tr_u = u, tr_s = s, tr_v = transpose vt,
               tr_Delta = tr_times (arg_tr_ratio p) (nd_norm (Arr y)),
               tr_initial_alpha = None, tr_rtol = 1 / 100, tr_max_iter = 10,
               tr_threshold = 1 / 10 ^ 6\<rparr>"
    and "trust_region_step_exact E c1 = Inr (dx1, hit, alpha)"
  shows "first_order E obj p deltas args y =
           (Inr \<lparr>fo_u = u, fo_s = s, fo_vt = vt, fo_m = tr_m c1, fo_n = tr_n c1, fo_dx1 = dx1\<rparr>,
            (case arg_Jx p of None \<Rightarrow> [EvJacX] | Some J \<Rightarrow> [])
            @ [EvSvd, EvCompute,
               EvJvp (map (\<lambda>(key, val). arg_idx key) deltas) (map (\<lambda>(key, val). val) deltas),
               EvTrStep c1])"
  using assms
  by (cases s; cases "arg_Jx p") (simp_all add: first_order_def Let_def)

lemma second_order_calls:
  assumes "nd_iadd (map (\<lambda>t. (1 / 2) * t)
                      (jvp2 obj (ArgInt 0) (ArgInt 0) (TanArr (Arr (fo_dx1 fo))) (TanArr (Arr (fo_dx1 fo))) args))
                   (map (\<lambda>t. (1 / 2) * t)
                      (jvp2 obj (ArgTuple inds) (ArgTuple inds) (TanTuple dc) (TanTuple dc) args))
           = Inr RHS2"
    and "nd_iadd RHS2 (jvp2 obj (ArgInt 0) (ArgTuple inds) (TanArr (Arr (fo_dx1 fo))) (TanTuple dc) args)
           = Inr RHS3"
    and "inds = map (\<lambda>(key, val). arg_idx key) deltas"
    and "dc = map (\<lambda>(key, val). val) deltas"
  shows "tr_calls (snd (second_order E obj p deltas args fo)) =
           [\<lparr>tr_n = fo_n fo, tr_m = fo_m fo, tr_f = RHS3, tr_u = fo_u fo, tr_s = fo_s fo,
             tr_v = transpose (fo_vt fo),
             tr_Delta = tr_times (arg_tr_ratio p) (nd_norm (Arr (fo_dx1 fo))),
             tr_initial_alpha = None, tr_rtol = 1 / 100, tr_max_iter = 10,
             tr_threshold = 1 / 10 ^ 6\<rparr>]"
  using assms
  by (simp add: second_order_def Let_def split: sum.splits prod.splits)

lemma get_set_block_same: "get_block k (set_block k v e) = v"
  by (cases k) simp_all

lemma get_set_block_other: "k' \<noteq> k \<Longrightarrow> get_block k' (set_block k v e) = get_block k' e"
  by (cases k; cases k') simp_all

lemma set_block_frame:
  "eq_x (set_block k v e) = eq_x e" "eq_parent (set_block k v e) = eq_parent e"
  "eq_children (set_block k v e) = eq_children e" "eq_objective (set_block k v e) = eq_objective e"
  by (cases k; simp)+

lemma apply_deltas_frame:
  "apply_deltas ds e = (r, e') \<Longrightarrow>
     eq_x e' = eq_x e \<and> eq_parent e' = eq_parent e \<and> eq_children e' = eq_children e \<and>
     eq_objective e' = eq_objective e"
  by (induction ds e rule: apply_deltas.induct) (auto simp: set_block_frame split: sum.splits)

lemma apply_deltas_other:
  "apply_deltas ds e = (r, e') \<Longrightarrow> k \<notin> fst ` set ds \<Longrightarrow> get_block k e' = get_block k e"
  by (induction ds e rule: apply_deltas.induct)
     (auto simp: get_set_block_other split: sum.splits)

lemma apply_deltas_added:
  "apply_deltas ds e = (None, e') \<Longrightarrow> distinct (map fst ds) \<Longrightarrow> (k, dc) \<in> set ds \<Longrightarrow>
     nd_add (get_block k e) dc = Inr (get_block k e')"
proof (induction ds e rule: apply_deltas.induct)
  case (1 e)
  then show ?case by simp
next
  case (2 key d rest e)
  from "2.prems"(1) obtain v where v: "nd_add (get_block key e) d = Inr v"
    and r: "apply_deltas rest (set_block key v e) = (None, e')"
    by (auto split: sum.splits)
  show ?case
  proof (cases "(k, dc) = (key, d)")
    case True
    have "key \<notin> fst ` set rest" using "2.prems"(2) by auto
    then have "get_block key e' = get_block key (set_block key v e)"
      using r by (rule apply_deltas_other[rotated])
    then show ?thesis using True v by (simp add: get_set_block_same)
  next
    case False
    then have in_rest: "(k, dc) \<in> set rest" using "2.prems"(3) by auto
    then have "k \<noteq> key" using "2.prems"(2) by (auto simp: image_iff)
    moreover have "nd_add (get_block k (set_block key v e)) dc = Inr (get_block k e')"
      using "2.IH"[OF v r] "2.prems"(2) in_rest by simp
    ultimately show ?thesis by (simp add: get_set_block_other)
  qed
qed

lemma map_fst_delta_entry: "map fst (delta_entry k d) = (if none_or_zero d then [] else [k])"
  by (cases d) (simp_all add: delta_entry_def none_or_zero_def)

lemma distinct_collect_deltas: "distinct (map fst (collect_deltas p))"
  by (simp add: collect_deltas_def map_fst_delta_entry)

lemma delta_entry_none: "none_or_zero d \<Longrightarrow> delta_entry k d = []"
  by (cases d) (simp_all add: delta_entry_def none_or_zero_def)

lemma collect_deltas_none:
  "all_deltas_none_or_zero p \<Longrightarrow> collect_deltas p = []"
  by (simp add: all_deltas_none_or_zero_def collect_deltas_def delta_entry_none)

lemma set_x_frame:
  "eq_x (set_x v e) = v" "eq_parent (set_x v e) = eq_parent e"
  "eq_children (set_x v e) = eq_children e" "eq_objective (set_x v e) = eq_objective e"
  "get_block k (set_x v e) = get_block k e"
  by (cases k; simp add: set_x_def Let_def split: prod.splits)+

lemma update_target_success:
  assumes "update_target E p deltas y dx1 dx2 e0 = (None, e', evs)"
  shows "eq_parent e' = eq_parent e0" and "eq_children e' = eq_children e0"
    and "\<exists>e1. apply_deltas deltas e0 = (None, e1) \<and> (\<forall>k. get_block k e' = get_block k e1)"
    and "\<not> 0 < arg_order p \<Longrightarrow> eq_x e' = eq_x e0"
    and "0 < arg_order p \<Longrightarrow>
           \<exists>dy ydy objn. nd_add dx1 dx2 = Inr dy \<and> nd_add (Arr y) dy = Inr ydy \<and>
             eq_objective e' = Some objn \<and> eq_x e' = recover (BC_constraint objn) ydy \<and>
             (Rb_mn \<notin> set (map fst deltas) \<and> Zb_mn \<notin> set (map fst deltas)
                \<longrightarrow> eq_objective e0 = Some objn)"
proof -
  obtain err e1 where a: "apply_deltas deltas e0 = (err, e1)" by (cases "apply_deltas deltas e0")
  with assms have err: "err = None"
    by (auto simp: update_target_def Let_def split: option.splits)
  note f = apply_deltas_frame[OF a]
  show "eq_parent e' = eq_parent e0"
    using assms a err f
    by (auto simp: update_target_def Let_def set_x_frame split: option.splits sum.splits if_splits)
  show "eq_children e' = eq_children e0"
    using assms a err f
    by (auto simp: update_target_def Let_def set_x_frame split: option.splits sum.splits if_splits)
  have "\<forall>k. get_block k e' = get_block k e1"
    using assms a err
    by (auto simp: update_target_def Let_def set_x_frame split: option.splits sum.splits if_splits)
       (case_tac k; simp add: set_x_frame)+
  then show "\<exists>e1. apply_deltas deltas e0 = (None, e1) \<and> (\<forall>k. get_block k e' = get_block k e1)"
    using a err by blast
  show "eq_x e' = eq_x e0" if "\<not> 0 < arg_order p"
    using assms a err f that
    by (auto simp: update_target_def Let_def split: option.splits sum.splits if_splits)
  show "\<exists>dy ydy objn. nd_add dx1 dx2 = Inr dy \<and> nd_add (Arr y) dy = Inr ydy \<and>
             eq_objective e' = Some objn \<and> eq_x e' = recover (BC_constraint objn) ydy \<and>
             (Rb_mn \<notin> set (map fst deltas) \<and> Zb_mn \<notin> set (map fst deltas)
                \<longrightarrow> eq_objective e0 = Some objn)" if "0 < arg_order p"
    using assms a err f that
    by (auto simp: update_target_def Let_def set_x_frame split: option.splits sum.splits if_splits)
       (metis option.inject)
qed

lemma apply_perturbation_copy:
  assumes "a < length st" and "arg_copy p"
    and "apply_perturbation E p deltas y dx1 dx2 st a = (Inr new, st', evs)"
  shows "length st \<le> new" and "new < length st'"
    and "st' ! a = (st ! a)\<lparr>eq_children := eq_children (st ! a) @ [new]\<rparr>"
    and "\<forall>b < length st. b \<noteq> a \<longrightarrow> st' ! b = st ! b"
    and "\<exists>ch evs'. update_target E p deltas y dx1 dx2
            ((st ! a)\<lparr>eq_parent := Some a, eq_children := ch\<rparr>) = (None, st' ! new, evs')"
proof -
  obtain st1 n where c: "eq_copy st a = (st1, n)" by (cases "eq_copy st a")
  obtain err e l2 where u: "update_target E p deltas y dx1 dx2 (st1 ! n) = (err, e, l2)"
    by (cases "update_target E p deltas y dx1 dx2 (st1 ! n)")
  from assms(2,3) c u have r: "err = None" "new = n" "st' = st1[n := e]"
    by (auto simp: apply_perturbation_def Let_def split: option.splits)
  note cp = eq_copy_props[OF assms(1) c]
  have ne: "n \<noteq> a" using cp(1) assms(1) by simp
  show "length st \<le> new" using cp(1) r by simp
  show "new < length st'" using cp(2) r by simp
  show "st' ! a = (st ! a)\<lparr>eq_children := eq_children (st ! a) @ [new]\<rparr>"
    using cp(3) r ne by simp
  show "\<forall>b < length st. b \<noteq> a \<longrightarrow> st' ! b = st ! b"
    using cp(1,4) r by auto
  from cp(5) obtain ch where "st1 ! n = (st ! a)\<lparr>eq_parent := Some a, eq_children := ch\<rparr>"
    by blast
  then show "\<exists>ch evs'. update_target E p deltas y dx1 dx2
            ((st ! a)\<lparr>eq_parent := Some a, eq_children := ch\<rparr>) = (None, st' ! new, evs')"
    using u r cp(2) by (intro exI[of _ ch] exI[of _ l2]) simp
qed

lemma perturb_returns:
  assumes "a < length st" and "perturb E p st a = (Inr new, st', evs)"
  shows "\<exists>obj0 obj tr dx1 dx2 evs3 evs4.
           eq_objective (st ! a) = Some obj0 \<and> \<not> scalar obj0 \<and>
           eq_objective (ensure_built E (arg_verbose p) (st ! a)) = Some obj \<and>
           unpack_tr_ratio (arg_tr_ratio p) = Inr tr \<and>
           steps E obj p (collect_deltas p)
             (objective_args obj (ensure_built E (arg_verbose p) (st ! a)))
             (fst (objective_args obj (ensure_built E (arg_verbose p) (st ! a))))
             = (Inr (dx1, dx2), evs3) \<and>
           apply_perturbation E p (collect_deltas p)
             (fst (objective_args obj (ensure_built E (arg_verbose p) (st ! a))))
             dx1 dx2 (st[a := ensure_built E (arg_verbose p) (st ! a)]) a
             = (Inr new, st', evs4)"
  using assms
  by (auto simp: perturb_def Let_def split: option.splits if_splits sum.splits prod.splits)

lemma state_and_blocks_get:
  "state_and_blocks e = state_and_blocks e' \<Longrightarrow> get_block k e = get_block k e'"
  by (cases k) (simp_all add: state_and_blocks_def)

lemma get_block_lineage:
  "get_block k (e\<lparr>eq_parent := q, eq_children := ch\<rparr>) = get_block k e"
  by (cases k) simp_all

lemma update_target_noop:
  "\<not> 0 < arg_order p \<Longrightarrow> update_target E p [] y dx1 dx2 e0 = (None, e0, [])"
  by (simp add: update_target_def)

lemma update_target_state_only:
  assumes "0 < arg_order p" and "eq_objective e0 = Some obj"
    and "nd_add dx1 dx2 = Inr dy" and "nd_add (Arr y) dy = Inr ydy"
  shows "update_target E p [] y dx1 dx2 e0
           = (None, set_x (recover (BC_constraint obj) ydy) e0, [EvRecover])"
  using assms by (simp add: update_target_def)

lemma apply_perturbation_state_only:
  assumes "a < length st" and "0 < arg_order p" and "eq_objective (st ! a) = Some obj"
    and "nd_add dx1 dx2 = Inr dy" and "nd_add (Arr y) dy = Inr ydy"
  shows "\<exists>new st' evs. apply_perturbation E p [] y dx1 dx2 st a = (Inr new, st', evs)
           \<and> new < length st' \<and> eq_x (st' ! new) = recover (BC_constraint obj) ydy"
proof (cases "arg_copy p")
  case True
  obtain st1 n where c: "eq_copy st a = (st1, n)" by (cases "eq_copy st a")
  note cp = eq_copy_props[OF assms(1) c]
  from cp(5) have o: "eq_objective (st1 ! n) = Some obj" using assms(3) by auto
  show ?thesis
    using True c cp(2) update_target_state_only[OF assms(2) o assms(4,5), of E]
    by (simp add: apply_perturbation_def set_x_frame)
next
  case False
  then show ?thesis
    using assms(1) update_target_state_only[OF assms(2,3,4,5), of E]
    by (simp add: apply_perturbation_def set_x_frame)
qed


lemma first_order_calls:
  assumes "svd E (case arg_Jx p of None \<Rightarrow> jac_x obj args | Some J \<Rightarrow> J) = (u, s, vt)"
    and "s \<noteq> []"
    and "nd_iadd (compute obj args)
           (jvp obj (map (\<lambda>(key, val). arg_idx key) deltas) (map (\<lambda>(key, val). val) deltas) args)
         = Inr RHS1"
  shows "tr_calls (snd (first_order E obj p deltas args y)) =
           [\<lparr>tr_n = (case (case arg_Jx p of None \<Rightarrow> jac_x obj args | Some J \<Rightarrow> J) of
                        [] \<Rightarrow> 0 | r # _ \<Rightarrow> length r),
             tr_m = length (case arg_Jx p of None \<Rightarrow> jac_x obj args | Some J \<Rightarrow> J),
             tr_f = RHS1, tr_u = u, tr_s = s, tr_v = transpose vt,
             tr_Delta = tr_times (arg_tr_ratio p) (nd_norm (Arr y)),
             tr_initial_alpha = None, tr_rtol = 1 / 100, tr_max_iter = 10,
             tr_threshold = 1 / 10 ^ 6\<rparr>]"
  using assms
  by (cases s; cases "arg_Jx p")
     (simp_all add: first_order_def Let_def tr_calls_append split: sum.splits prod.splits)

lemma steps_order_one:
  "arg_order p = 1 \<Longrightarrow>
     steps E obj p deltas args y =
       (case first_order E obj p deltas args y of
          (Inl e, evs) \<Rightarrow> (Inl e, evs)
        | (Inr fo, evs) \<Rightarrow> (Inr (Arr (fo_dx1 fo), Scal 0), evs))"
  by (simp add: steps_def split: prod.splits sum.splits)


lemma order_one_no_deltas:
  assumes "a < length st"
    and "eq_built (st ! a)"
    and "eq_objective (st ! a) = Some obj" and "\<not> scalar obj"
    and "all_deltas_none_or_zero p"
    and "arg_order p = 1"
    and "unpack_tr_ratio (arg_tr_ratio p) = Inr tr"
    and "args = objective_args obj (st ! a)"
    and "Jx = (case arg_Jx p of None \<Rightarrow> jac_x obj args | Some J \<Rightarrow> J)"
    and "svd E Jx = (u, s, vt)" and "s \<noteq> []"
    and "nd_iadd (compute obj args) (jvp obj [] [] args) = Inr RHS1"
    and "c1 = \<lparr>tr_n = (case Jx of [] \<Rightarrow> 0 | r # _ \<Rightarrow> length r), tr_m = length Jx,
               tr_f = RHS1, tr_u = u, tr_s = s, tr_v = transpose vt,
               tr_Delta = tr_times (arg_tr_ratio p) (nd_norm (Arr (fst args))),
               tr_initial_alpha = None, tr_rtol = 1 / 100, tr_max_iter = 10,
               tr_threshold = 1 / 10 ^ 6\<rparr>"
  shows "tr_calls (snd (snd (perturb E p st a))) = [c1]"
    and "trust_region_step_exact E c1 = Inr (dx1, hit, alpha) \<Longrightarrow> length dx1 = length (fst args)
           \<Longrightarrow> \<exists>new st' evs. perturb E p st a = (Inr new, st', evs) \<and> new < length st'
                  \<and> eq_x (st' ! new)
                      = recover (BC_constraint obj) (Arr (map2 (+) (fst args) dx1))"
proof -
  have b: "ensure_built E (arg_verbose p) (st ! a) = st ! a"
    using assms(2) by (simp add: ensure_built_def)
  have obj: "eq_objective (ensure_built E (arg_verbose p) (st ! a)) = Some obj"
    using b assms(3) by simp
  have d: "collect_deltas p = []" using assms(5) by (rule collect_deltas_none)
  have ia: "nd_iadd (compute obj args)
           (jvp obj (map (\<lambda>(key, val). arg_idx key) []) (map (\<lambda>(key, val). val) []) args)
         = Inr RHS1"
    using assms(12) by simp
  note u = perturb_unfold[OF assms(1,3,4) obj assms(7), unfolded b d, folded assms(8)]
  have s1: "svd E (case arg_Jx p of None \<Rightarrow> jac_x obj args | Some J \<Rightarrow> J) = (u, s, vt)"
    using assms(9,10) by simp
  have calls: "tr_calls (snd (first_order E obj p [] args (fst args))) = [c1]"
    using first_order_calls[OF s1 assms(11) ia, of "fst args"] assms(9,13) by simp
  show "tr_calls (snd (snd (perturb E p st a))) = [c1]"
    unfolding perturb_tr_calls[OF assms(1,3,4) obj assms(7)] b d
    using calls assms(8) by (auto simp: steps_order_one[OF assms(6)] split: prod.splits sum.splits)
  show "\<exists>new st' evs. perturb E p st a = (Inr new, st', evs) \<and> new < length st'
                  \<and> eq_x (st' ! new)
                      = recover (BC_constraint obj) (Arr (map2 (+) (fst args) dx1))"
    if sol: "trust_region_step_exact E c1 = Inr (dx1, hit, alpha)"
      and len: "length dx1 = length (fst args)"
  proof -
    have c1': "c1 = \<lparr>tr_n = (case (case arg_Jx p of None \<Rightarrow> jac_x obj args | Some J \<Rightarrow> J) of
                        [] \<Rightarrow> 0 | r # _ \<Rightarrow> length r),
               tr_m = length (case arg_Jx p of None \<Rightarrow> jac_x obj args | Some J \<Rightarrow> J),
               tr_f = RHS1, tr_u = u, tr_s = s, tr_v = transpose vt,
               tr_Delta = tr_times (arg_tr_ratio p) (nd_norm (Arr (fst args))),
               tr_initial_alpha = None, tr_rtol = 1 / 100, tr_max_iter = 10,
               tr_threshold = 1 / 10 ^ 6\<rparr>"
      using assms(9,13) by simp
    from first_order_success[OF s1 assms(11) ia c1' sol]
    obtain fo evs1 where fo: "first_order E obj p [] args (fst args) = (Inr fo, evs1)"
      and dx: "fo_dx1 fo = dx1" by simp
    have st: "steps E obj p [] args (fst args) = (Inr (Arr dx1, Scal 0), evs1)"
      using fo dx by (simp add: steps_order_one[OF assms(6)])
    have add1: "nd_add (Arr dx1) (Scal 0) = Inr (Arr dx1)" by simp
    have add2: "nd_add (Arr (fst args)) (Arr dx1) = Inr (Arr (map2 (+) (fst args) dx1))"
      using len by simp
    have o: "0 < arg_order p" using assms(6) by simp
    have a1: "a < length (st[a := st ! a])" using assms(1) by simp
    have o1: "eq_objective (st[a := st ! a] ! a) = Some obj" using assms(1,3) by simp
    from apply_perturbation_state_only[OF a1 o o1 add1 add2, of E]
    obtain new st' evs4 where
      "apply_perturbation E p [] (fst args) (Arr dx1) (Scal 0) (st[a := st ! a]) a = (Inr new, st', evs4)"
      "new < length st'" "eq_x (st' ! new) = recover (BC_constraint obj) (Arr (map2 (+) (fst args) dx1))"
      by blast
    then show ?thesis
      unfolding u by (simp add: st)
  qed
qed

lemma first_order_events:
  assumes "svd E (case arg_Jx p of None \<Rightarrow> jac_x obj args | Some J \<Rightarrow> J) = (u, s, vt)"
    and "s \<noteq> []"
    and "nd_iadd (compute obj args)
           (jvp obj (map (\<lambda>(key, val). arg_idx key) deltas) (map (\<lambda>(key, val). val) deltas) args)
         = Inr RHS1"
  shows "snd (first_order E obj p deltas args y) =
           (case arg_Jx p of None \<Rightarrow> [EvJacX] | Some J \<Rightarrow> [])
           @ [EvSvd, EvCompute,
              EvJvp (map (\<lambda>(key, val). arg_idx key) deltas) (map (\<lambda>(key, val). val) deltas),
              EvTrStep
                \<lparr>tr_n = (case (case arg_Jx p of None \<Rightarrow> jac_x obj args | Some J \<Rightarrow> J) of
                           [] \<Rightarrow> 0 | r # _ \<Rightarrow> length r),
                 tr_m = length (case arg_Jx p of None \<Rightarrow> jac_x obj args | Some J \<Rightarrow> J),
                 tr_f = RHS1, tr_u = u, tr_s = s, tr_v = transpose vt,
                 tr_Delta = tr_times (arg_tr_ratio p) (nd_norm (Arr y)),
                 tr_initial_alpha = None, tr_rtol = 1 / 100, tr_max_iter = 10,
                 tr_threshold = 1 / 10 ^ 6\<rparr>]"
  using assms
  by (cases s; cases "arg_Jx p")
     (simp_all add: first_order_def Let_def split: sum.splits prod.splits)

lemma steps_events_begin:
  "0 < arg_order p \<Longrightarrow>
     \<exists>rest. snd (steps E obj p deltas args y) = snd (first_order E obj p deltas args y) @ rest"
  by (auto simp: steps_def split: prod.splits sum.splits)

lemma perturb_events_begin:
  assumes "a < length st"
    and "eq_objective (st ! a) = Some obj0" and "\<not> scalar obj0"
    and "eq_objective (ensure_built E (arg_verbose p) (st ! a)) = Some obj"
    and "unpack_tr_ratio (arg_tr_ratio p) = Inr tr"
  shows "\<exists>rest. snd (snd (perturb E p st a)) =
           (if use_jax E then [] else [Warn fd_warning])
           @ (if eq_built (st ! a) then [] else [EvBuild (arg_verbose p)]) @ [EvProject]
           @ snd (steps E obj p (collect_deltas p)
                   (objective_args obj (ensure_built E (arg_verbose p) (st ! a)))
                   (fst (objective_args obj (ensure_built E (arg_verbose p) (st ! a)))))
           @ rest"
  unfolding perturb_unfold [OF assms]
  by (auto split: prod.splits sum.splits)


section \<open>The second-order step\<close>

text \<open>
  Claim C2. When \<open>order\<close> is at least two and the first-order block has completed (the
  objective is vector-valued, \<open>tr_ratio\<close> unpacks, \<open>Jx\<close> has a singular value, the
  additions are defined and the first solve returns \<open>dx1\<close>), the solver is called exactly
  twice. The right-hand side of the second call is half of \<open>jvp2(0, 0, dx1, dx1)\<close> plus
  half of \<open>jvp2(inds, inds, dc, dc)\<close> plus \<open>jvp2(0, inds, dx1, dc)\<close>, added as \<open>+=\<close> adds
  arrays, where \<open>inds\<close> and \<open>dc\<close> are the positions and values of the requested deltas. The
  second call gets the factors \<open>u\<close>, \<open>s\<close> and the transpose of \<open>vt\<close> of the one
  decomposition of \<open>Jx\<close> that the first call got.
\<close>

theorem second_order_right_hand_side:
  assumes "a < length st"
    and "eq_objective (st ! a) = Some obj0" and "\<not> scalar obj0"
    and "e = ensure_built E (arg_verbose p) (st ! a)"
    and "eq_objective e = Some obj"
    and "args = objective_args obj e"
    and "unpack_tr_ratio (arg_tr_ratio p) = Inr tr"
    and "1 < arg_order p"
    and "Jx = (case arg_Jx p of None \<Rightarrow> jac_x obj args | Some J \<Rightarrow> J)"
    and "svd E Jx = (u, s, vt)" and "s \<noteq> []"
    and "inds = map (\<lambda>(key, val). arg_idx key) (collect_deltas p)"
    and "dc = map (\<lambda>(key, val). val) (collect_deltas p)"
    and "nd_iadd (compute obj args) (jvp obj inds dc args) = Inr RHS1"
    and "c1 = \<lparr>tr_n = (case Jx of [] \<Rightarrow> 0 | r # _ \<Rightarrow> length r), tr_m = length Jx,
               tr_f = RHS1, tr_u = u, tr_s = s, tr_v = transpose vt,
               tr_Delta = tr_times (arg_tr_ratio p) (nd_norm (Arr (fst args))),
               tr_initial_alpha = None, tr_rtol = 1 / 100, tr_max_iter = 10,
               tr_threshold = 1 / 10 ^ 6\<rparr>"
    and "trust_region_step_exact E c1 = Inr (dx1, hit, alpha)"
    and "nd_iadd (map (\<lambda>t. (1 / 2) * t)
                      (jvp2 obj (ArgInt 0) (ArgInt 0) (TanArr (Arr dx1)) (TanArr (Arr dx1)) args))
                   (map (\<lambda>t. (1 / 2) * t)
                      (jvp2 obj (ArgTuple inds) (ArgTuple inds) (TanTuple dc) (TanTuple dc) args))
           = Inr RHS2"
    and "nd_iadd RHS2 (jvp2 obj (ArgInt 0) (ArgTuple inds) (TanArr (Arr dx1)) (TanTuple dc) args)
           = Inr RHS3"
  shows "tr_calls (snd (snd (perturb E p st a))) =
           [c1,
            \<lparr>tr_n = tr_n c1, tr_m = tr_m c1, tr_f = RHS3, tr_u = u, tr_s = s,
             tr_v = transpose vt,
             tr_Delta = tr_times (arg_tr_ratio p) (nd_norm (Arr dx1)),
             tr_initial_alpha = None, tr_rtol = 1 / 100, tr_max_iter = 10,
             tr_threshold = 1 / 10 ^ 6\<rparr>]"
proof -
  let ?deltas = "collect_deltas p"
  let ?fo = "\<lparr>fo_u = u, fo_s = s, fo_vt = vt, fo_m = tr_m c1, fo_n = tr_n c1, fo_dx1 = dx1\<rparr>"
  have obj: "eq_objective (ensure_built E (arg_verbose p) (st ! a)) = Some obj"
    using assms(4,5) by simp
  have fo: "first_order E obj p ?deltas args (fst args) =
           (Inr ?fo,
            (case arg_Jx p of None \<Rightarrow> [EvJacX] | Some J \<Rightarrow> [])
            @ [EvSvd, EvCompute, EvJvp inds dc, EvTrStep c1])"
    using first_order_success [where E=E and p=p and obj=obj and args=args and u=u and s=s and vt=vt
        and deltas="?deltas" and ?RHS1.0=RHS1 and ?c1.0=c1 and y="fst args" and ?dx1.0=dx1 and hit=hit
        and alpha=alpha]
      assms(9-16) by simp
  have so: "tr_calls (snd (second_order E obj p ?deltas args ?fo)) =
           [\<lparr>tr_n = tr_n c1, tr_m = tr_m c1, tr_f = RHS3, tr_u = u, tr_s = s,
             tr_v = transpose vt,
             tr_Delta = tr_times (arg_tr_ratio p) (nd_norm (Arr dx1)),
             tr_initial_alpha = None, tr_rtol = 1 / 100, tr_max_iter = 10,
             tr_threshold = 1 / 10 ^ 6\<rparr>]"
    using second_order_calls [where obj=obj and fo="?fo" and args=args and inds=inds and dc=dc
        and ?RHS2.0=RHS2 and ?RHS3.0=RHS3 and deltas="?deltas" and E=E and p=p] assms(12,13,17,18)
    by simp
  have "tr_calls (snd (steps E obj p ?deltas args (fst args))) =
          c1 # tr_calls (snd (second_order E obj p ?deltas args ?fo))"
    using assms(8) fo
    by (cases "arg_Jx p") (auto simp: steps_def tr_calls_append split: prod.splits sum.splits)
  then show ?thesis
    unfolding perturb_tr_calls [OF assms(1,2,3) obj assms(7)] so
    using assms(4,6) by simp
qed

text \<open>On the example with a pressure delta: the first right-hand side is the residual
  plus the directional product, the second is \<open>[2, 3] + [5, 10] + [100, 200]\<close>, and both
  calls carry the same factors.\<close>

theorem second_order_right_hand_side_witness:
  "tr_calls (snd (snd (perturb ex_env (default_args\<lparr>arg_dp := Some (Arr [1])\<rparr>) [ex_eq] 0))) =
     [\<lparr>tr_n = 2, tr_m = 2, tr_f = [2, 2], tr_u = [[1, 0], [0, 1]], tr_s = [1, 1 / 10],
       tr_v = transpose [[1, 0], [0, 1]], tr_Delta = Scal (1 / 2),
       tr_initial_alpha = None, tr_rtol = 1 / 100, tr_max_iter = 10, tr_threshold = 1 / 10 ^ 6\<rparr>,
      \<lparr>tr_n = 2, tr_m = 2, tr_f = [107, 213], tr_u = [[1, 0], [0, 1]], tr_s = [1, 1 / 10],
       tr_v = transpose [[1, 0], [0, 1]], tr_Delta = Scal (3 / 10),
       tr_initial_alpha = None, tr_rtol = 1 / 100, tr_max_iter = 10, tr_threshold = 1 / 10 ^ 6\<rparr>]"
proof -
  let ?p = "default_args\<lparr>arg_dp := Some (Arr [1])\<rparr>"
  let ?args = "objective_args ex_objective ex_eq"
  let ?call = "\<lparr>tr_n = (case [[1, 0], [0, 1 / 10 :: real]] of [] \<Rightarrow> 0 | r # _ \<Rightarrow> length r),
              tr_m = length [[1, 0], [0, 1 / 10 :: real]],
              tr_f = [2, 2], tr_u = [[1, 0], [0, 1]], tr_s = [1, 1 / 10],
              tr_v = transpose [[1, 0], [0, 1]],
              tr_Delta = tr_times (arg_tr_ratio ?p) (nd_norm (Arr (fst ?args))),
              tr_initial_alpha = None, tr_rtol = 1 / 100, tr_max_iter = 10,
              tr_threshold = 1 / 10 ^ 6\<rparr>"
  have "tr_calls (snd (snd (perturb ex_env ?p [ex_eq] 0))) =
           [?call,
            \<lparr>tr_n = tr_n ?call, tr_m = tr_m ?call, tr_f = [107, 213], tr_u = [[1, 0], [0, 1]],
             tr_s = [1, 1 / 10], tr_v = transpose [[1, 0], [0, 1]],
             tr_Delta = tr_times (arg_tr_ratio ?p) (nd_norm (Arr [3, 0])),
             tr_initial_alpha = None, tr_rtol = 1 / 100, tr_max_iter = 10,
             tr_threshold = 1 / 10 ^ 6\<rparr>]"
    by (rule second_order_right_hand_side
          [where ?obj0.0 = ex_objective and e = ex_eq and obj = ex_objective and args = ?args
             and tr = "(1 / 10, 1 / 10)" and Jx = "[[1, 0], [0, 1 / 10]]"
             and inds = "[3]" and dc = "[Arr [1]]" and ?RHS1.0 = "[2, 2]"
             and hit = False and alpha = 0 and ?RHS2.0 = "[7, 13]"])
       (simp_all add: ex_defs collect_deltas_def delta_entry_def ensure_built_def
          objective_args_def nd_iadd_def)
  then show ?thesis
    by (simp add: ex_defs objective_args_def)
qed

section \<open>The perturbation without deltas and steps\<close>

text \<open>
  Claim C6, as amended. On a built equilibrium that has a vector-valued objective, with
  every delta \<open>None\<close> or zero, \<open>order = 0\<close>, \<open>copy = True\<close> and \<open>tr_ratio\<close> a float or a
  pair, \<open>perturb\<close> returns a new object whose state vector and six parameter blocks are
  those of the original. The original keeps every attribute except its list of children,
  to which the copy is appended, and every other object of the store is unchanged.
\<close>

theorem noop_perturbation_returns_identical_copy:
  assumes "a < length st"
    and "eq_built (st ! a)"
    and "eq_objective (st ! a) = Some obj" and "\<not> scalar obj"
    and "all_deltas_none_or_zero p"
    and "arg_order p = 0"
    and "arg_copy p"
    and "unpack_tr_ratio (arg_tr_ratio p) = Inr tr"
  shows "\<exists>new st' evs. perturb E p st a = (Inr new, st', evs)
           \<and> length st \<le> new \<and> new < length st'
           \<and> state_and_blocks (st' ! new) = state_and_blocks (st ! a)
           \<and> st' ! a = (st ! a)\<lparr>eq_children := eq_children (st ! a) @ [new]\<rparr>
           \<and> (\<forall>b < length st. b \<noteq> a \<longrightarrow> st' ! b = st ! b)"
proof -
  have b: "ensure_built E (arg_verbose p) (st ! a) = st ! a"
    using assms(2) by (simp add: ensure_built_def)
  have obj: "eq_objective (ensure_built E (arg_verbose p) (st ! a)) = Some obj"
    using b assms(3) by simp
  have d: "collect_deltas p = []" using assms(5) by (rule collect_deltas_none)
  note u = perturb_unfold[OF assms(1,3,4) obj assms(8), unfolded b d]
  have st: "steps E obj p [] args y = (Inr (Scal 0, Scal 0), [])" for args y
    using assms(6) by (simp add: steps_def)
  obtain st1 n where c: "eq_copy st a = (st1, n)" by (cases "eq_copy st a")
  note cp = eq_copy_props[OF assms(1) c]
  have no: "\<not> 0 < arg_order p" using assms(6) by simp
  have ap: "apply_perturbation E p [] y (Scal 0) (Scal 0) st a = (Inr n, st1, [EvCopy])" for y
    using assms(7) c by (simp add: apply_perturbation_def update_target_noop[OF no])
  have sb: "state_and_blocks (st1 ! n) = state_and_blocks (st ! a)"
    using cp(5) by (auto simp: state_and_blocks_def)
  have "perturb E p st a =
          (Inr n, st1, (if use_jax E then [] else [Warn fd_warning])
             @ (if eq_built (st ! a) then [] else [EvBuild (arg_verbose p)]) @ [EvProject] @ [EvCopy])"
    unfolding u by (simp add: st ap)
  then show ?thesis
    using cp(1,2,3,4) sb by blast
qed

text \<open>
  The claim as stated fails: a built equilibrium whose objective is scalar gets no new
  equilibrium but the exception of the check at line 72, also for \<open>order = 0\<close>; and on
  the example, whose objective is vector-valued, the original does change: its list of
  children, empty before, holds the copy afterwards.
\<close>

theorem noop_perturbation_counterexample:
  "eq_built (ex_eq\<lparr>eq_objective := Some (ex_objective\<lparr>scalar := True\<rparr>)\<rparr>)
   \<and> all_deltas_none_or_zero (default_args\<lparr>arg_order := 0\<rparr>)
   \<and> fst (perturb ex_env (default_args\<lparr>arg_order := 0\<rparr>)
             [ex_eq\<lparr>eq_objective := Some (ex_objective\<lparr>scalar := True\<rparr>)\<rparr>] 0)
       = Inl (AttributeError ''Cannot perturb with a scalar objective'')
   \<and> eq_children (fst (snd (perturb ex_env (default_args\<lparr>arg_order := 0\<rparr>) [ex_eq] 0)) ! 0) = [1]
   \<and> eq_children ex_eq = []"
  by (simp add: ex_defs model_defs all_deltas_none_or_zero_def none_or_zero_def)

text \<open>The amended statement on the example.\<close>

theorem noop_perturbation_witness:
  "\<exists>new st' evs. perturb ex_env (default_args\<lparr>arg_order := 0\<rparr>) [ex_eq] 0 = (Inr new, st', evs)
      \<and> 1 \<le> new \<and> state_and_blocks (st' ! new) = state_and_blocks ex_eq
      \<and> st' ! 0 = ex_eq\<lparr>eq_children := [new]\<rparr>"
proof -
  have "\<exists>new st' evs. perturb ex_env (default_args\<lparr>arg_order := 0\<rparr>) [ex_eq] 0 = (Inr new, st', evs)
           \<and> length [ex_eq] \<le> new \<and> new < length st'
           \<and> state_and_blocks (st' ! new) = state_and_blocks ([ex_eq] ! 0)
           \<and> st' ! 0 = ([ex_eq] ! 0)\<lparr>eq_children := eq_children ([ex_eq] ! 0) @ [new]\<rparr>
           \<and> (\<forall>b < length [ex_eq]. b \<noteq> 0 \<longrightarrow> st' ! b = [ex_eq] ! b)"
    by (rule noop_perturbation_returns_identical_copy
          [where obj = ex_objective and tr = "(1 / 10, 1 / 10)"])
       (simp_all add: ex_defs all_deltas_none_or_zero_def none_or_zero_def)
  then obtain new st' evs where
    "perturb ex_env (default_args\<lparr>arg_order := 0\<rparr>) [ex_eq] 0 = (Inr new, st', evs)"
    "length [ex_eq] \<le> new" "state_and_blocks (st' ! new) = state_and_blocks ([ex_eq] ! 0)"
    "st' ! 0 = ([ex_eq] ! 0)\<lparr>eq_children := eq_children ([ex_eq] ! 0) @ [new]\<rparr>"
    by blast
  then show ?thesis
    by (intro exI[of _ new] exI[of _ st'] exI[of _ evs]) (simp add: ex_eq_def)
qed

section \<open>The copy and its provenance\<close>

text \<open>
  Claim C9. Whenever \<open>perturb\<close> with \<open>copy = True\<close> returns, the object returned is a new
  one. The input keeps its state vector and its six parameter blocks; the copy's parent
  is the input, and the copy is appended to the input's list of children. The updates are
  made on the copy: each block with a requested delta is the input's block plus the
  delta, every other block is the input's, and the state vector is the input's when
  \<open>order\<close> is not positive and otherwise the one recovered from \<open>y + dx1 + dx2\<close>.
  \<open>Equilibrium.build\<close>, which the call runs on an input that is not built and whose file
  is not among the sources, is taken to keep the state vector, the blocks and the list of
  children.
\<close>

theorem perturb_copy_leaves_input:
  assumes "a < length st" and "arg_copy p"
    and "perturb E p st a = (Inr new, st', evs)"
    and "state_and_blocks (ensure_built E (arg_verbose p) (st ! a)) = state_and_blocks (st ! a)"
    and "eq_children (ensure_built E (arg_verbose p) (st ! a)) = eq_children (st ! a)"
  shows "length st \<le> new \<and> new < length st'
     \<and> state_and_blocks (st' ! a) = state_and_blocks (st ! a)
     \<and> eq_parent (st' ! new) = Some a
     \<and> eq_children (st' ! a) = eq_children (st ! a) @ [new]
     \<and> (\<forall>b < length st. b \<noteq> a \<longrightarrow> st' ! b = st ! b)
     \<and> (\<forall>(k, dc) \<in> set (collect_deltas p).
           nd_add (get_block k (st ! a)) dc = Inr (get_block k (st' ! new)))
     \<and> (\<forall>k. k \<notin> fst ` set (collect_deltas p) \<longrightarrow> get_block k (st' ! new) = get_block k (st ! a))
     \<and> (\<not> 0 < arg_order p \<longrightarrow> eq_x (st' ! new) = eq_x (st ! a))
     \<and> (0 < arg_order p \<longrightarrow>
          (\<exists>obj dx1 dx2 evs1 dy ydy objn.
             eq_objective (ensure_built E (arg_verbose p) (st ! a)) = Some obj
             \<and> steps E obj p (collect_deltas p)
                  (objective_args obj (ensure_built E (arg_verbose p) (st ! a)))
                  (fst (objective_args obj (ensure_built E (arg_verbose p) (st ! a))))
                 = (Inr (dx1, dx2), evs1)
             \<and> nd_add dx1 dx2 = Inr dy
             \<and> nd_add (Arr (fst (objective_args obj (ensure_built E (arg_verbose p) (st ! a))))) dy
                 = Inr ydy
             \<and> eq_objective (st' ! new) = Some objn
             \<and> eq_x (st' ! new) = recover (BC_constraint objn) ydy))"
proof -
  let ?e = "ensure_built E (arg_verbose p) (st ! a)"
  let ?st1 = "st[a := ?e]"
  from perturb_returns[OF assms(1,3)] obtain obj dx1 dx2 evs3 evs4 where
    obj: "eq_objective ?e = Some obj"
    and st: "steps E obj p (collect_deltas p) (objective_args obj ?e) (fst (objective_args obj ?e))
             = (Inr (dx1, dx2), evs3)"
    and ap: "apply_perturbation E p (collect_deltas p) (fst (objective_args obj ?e)) dx1 dx2 ?st1 a
             = (Inr new, st', evs4)"
    by blast
  have a1: "a < length ?st1" using assms(1) by simp
  note c = apply_perturbation_copy[OF a1 assms(2) ap]
  have e: "?st1 ! a = ?e" using assms(1) by simp
  from c(5) obtain ch evs' where
    u: "update_target E p (collect_deltas p) (fst (objective_args obj ?e)) dx1 dx2
          (?e\<lparr>eq_parent := Some a, eq_children := ch\<rparr>) = (None, st' ! new, evs')"
    unfolding e by blast
  let ?base = "?e\<lparr>eq_parent := Some a, eq_children := ch\<rparr>"
  note t = update_target_success[OF u]
  from t(3) obtain e1 where ad: "apply_deltas (collect_deltas p) ?base = (None, e1)"
    and gb: "\<forall>k. get_block k (st' ! new) = get_block k e1" by blast
  have blk: "get_block k ?base = get_block k (st ! a)" for k
    using state_and_blocks_get[OF assms(4), of k] by (simp add: get_block_lineage)
  have p1: "length st \<le> new" using c(1) by simp
  have p2: "new < length st'" by (rule c(2))
  have p3: "state_and_blocks (st' ! a) = state_and_blocks (st ! a)"
    using c(3) e assms(4) by (simp add: state_and_blocks_def)
  have p4: "eq_parent (st' ! new) = Some a" using t(1) by simp
  have p5: "eq_children (st' ! a) = eq_children (st ! a) @ [new]"
    using c(3) e assms(5) by simp
  have p6: "\<forall>b < length st. b \<noteq> a \<longrightarrow> st' ! b = st ! b"
    using c(4) by simp
  have p7: "\<forall>(k, dc) \<in> set (collect_deltas p).
           nd_add (get_block k (st ! a)) dc = Inr (get_block k (st' ! new))"
    using apply_deltas_added[OF ad distinct_collect_deltas] gb blk by auto
  have p8: "\<forall>k. k \<notin> fst ` set (collect_deltas p) \<longrightarrow> get_block k (st' ! new) = get_block k (st ! a)"
    using apply_deltas_other[OF ad] gb blk by auto
  have p9: "\<not> 0 < arg_order p \<longrightarrow> eq_x (st' ! new) = eq_x (st ! a)"
    using t(4) assms(4) by (auto simp: state_and_blocks_def)
  have p10: "0 < arg_order p \<longrightarrow>
          (\<exists>obj dx1 dx2 evs1 dy ydy objn.
             eq_objective ?e = Some obj
             \<and> steps E obj p (collect_deltas p) (objective_args obj ?e) (fst (objective_args obj ?e))
                 = (Inr (dx1, dx2), evs1)
             \<and> nd_add dx1 dx2 = Inr dy
             \<and> nd_add (Arr (fst (objective_args obj ?e))) dy = Inr ydy
             \<and> eq_objective (st' ! new) = Some objn
             \<and> eq_x (st' ! new) = recover (BC_constraint objn) ydy)"
  proof
    assume "0 < arg_order p"
    from t(5)[OF this] obtain dy ydy objn where
      "nd_add dx1 dx2 = Inr dy" "nd_add (Arr (fst (objective_args obj ?e))) dy = Inr ydy"
      "eq_objective (st' ! new) = Some objn" "eq_x (st' ! new) = recover (BC_constraint objn) ydy"
      by blast
    with obj st show "\<exists>obj dx1 dx2 evs1 dy ydy objn.
             eq_objective ?e = Some obj
             \<and> steps E obj p (collect_deltas p) (objective_args obj ?e) (fst (objective_args obj ?e))
                 = (Inr (dx1, dx2), evs1)
             \<and> nd_add dx1 dx2 = Inr dy
             \<and> nd_add (Arr (fst (objective_args obj ?e))) dy = Inr ydy
             \<and> eq_objective (st' ! new) = Some objn
             \<and> eq_x (st' ! new) = recover (BC_constraint objn) ydy"
      by blast
  qed
  show ?thesis using p1 p2 p3 p4 p5 p6 p7 p8 p9 p10 by (intro conjI)
qed

text \<open>On the example with a pressure delta.\<close>

theorem perturb_copy_leaves_input_witness:
  "\<exists>st' evs. perturb ex_env (default_args\<lparr>arg_dp := Some (Arr [1])\<rparr>) [ex_eq] 0 = (Inr 1, st', evs)
      \<and> state_and_blocks (st' ! 0) = state_and_blocks ex_eq
      \<and> eq_parent (st' ! 1) = Some 0
      \<and> eq_children (st' ! 0) = [1]
      \<and> get_block p_l (st' ! 1) = Arr [1]
      \<and> get_block Psi (st' ! 1) = Scal 1"
proof -
  let ?p = "default_args\<lparr>arg_dp := Some (Arr [1])\<rparr>"
  have "fst (perturb ex_env ?p [ex_eq] 0) = Inr 1"
    by (simp add: ex_defs model_defs)
  then obtain st' evs where r: "perturb ex_env ?p [ex_eq] 0 = (Inr 1, st', evs)"
    by (cases "perturb ex_env ?p [ex_eq] 0") auto
  have cd: "collect_deltas ?p = [(p_l, Arr [1])]"
    by (simp add: collect_deltas_def delta_entry_def default_args_def)
  have h1: "(0::nat) < length [ex_eq]" by simp
  have h2: "arg_copy ?p" by (simp add: default_args_def)
  have h4: "state_and_blocks (ensure_built ex_env (arg_verbose ?p) ([ex_eq] ! 0))
              = state_and_blocks ([ex_eq] ! 0)"
    by (simp add: ensure_built_def ex_eq_def)
  have h5: "eq_children (ensure_built ex_env (arg_verbose ?p) ([ex_eq] ! 0))
              = eq_children ([ex_eq] ! 0)"
    by (simp add: ensure_built_def ex_eq_def)
  note T = perturb_copy_leaves_input[OF h1 h2 r h4 h5, unfolded cd]
  have a: "state_and_blocks (st' ! 0) = state_and_blocks ex_eq" using T by simp
  have b: "eq_parent (st' ! 1) = Some 0" using T by simp
  have c: "eq_children (st' ! 0) = [1]" using T by (simp add: ex_eq_def)
  have d: "nd_add (get_block p_l ([ex_eq] ! 0)) (Arr [1]) = Inr (get_block p_l (st' ! 1))"
    using T by simp
  then have d': "get_block p_l (st' ! 1) = Arr [1]" by (simp add: ex_eq_def)
  have "\<forall>k. k \<notin> fst ` set [(p_l, Arr [1])] \<longrightarrow> get_block k (st' ! 1) = get_block k ([ex_eq] ! 0)"
    using T by blast
  from this[rule_format, of Psi]
  have "get_block Psi (st' ! 1) = get_block Psi ([ex_eq] ! 0)" by simp
  then have e': "get_block Psi (st' ! 1) = Scal 1" by (simp add: ex_eq_def)
  show ?thesis using r a b c d' e' by blast
qed

section \<open>Zero deltas at first order\<close>



section \<open>The warning about finite differences\<close>

text \<open>
  Claim C8. When JAX is not in use, \<open>perturb\<close> warns and then proceeds, and the flag
  raises nothing. First, the call without JAX is the call with JAX with the warning in
  front of its events: the same object returned or exception raised and the same store.
  Second, the computation does run after the warning: whenever the objective is
  vector-valued, \<open>tr_ratio\<close> unpacks, \<open>order\<close> is positive, \<open>Jx\<close> has a singular value and
  the first sum is defined, the events are the warning, the build of an equilibrium that
  is not built, the projection, the Jacobian when none is given, the decomposition, the
  residual, the directional product and the first solve with all its arguments, followed
  by the rest of the call. Third, it returns the result: on a built equilibrium with
  every delta \<open>None\<close> or zero and \<open>order = 1\<close>, when the solver returns \<open>dx1\<close> of the length
  of \<open>y\<close>, the call returns an equilibrium whose state vector is recovered from \<open>y + dx1\<close>.
\<close>

theorem perturb_without_jax_warns_and_proceeds:
  "perturb (E\<lparr>use_jax := False\<rparr>) p st a =
     (case perturb (E\<lparr>use_jax := True\<rparr>) p st a of
        (r, st', evs) \<Rightarrow> (r, st', Warn fd_warning # evs))
   \<and> (a < length st \<and> eq_objective (st ! a) = Some obj0 \<and> \<not> scalar obj0
        \<and> e = ensure_built E (arg_verbose p) (st ! a) \<and> eq_objective e = Some obj
        \<and> args = objective_args obj e
        \<and> unpack_tr_ratio (arg_tr_ratio p) = Inr tr
        \<and> 0 < arg_order p
        \<and> Jx = (case arg_Jx p of None \<Rightarrow> jac_x obj args | Some J \<Rightarrow> J)
        \<and> svd E Jx = (u, s, vt) \<and> s \<noteq> []
        \<and> inds = map (\<lambda>(key, val). arg_idx key) (collect_deltas p)
        \<and> dc = map (\<lambda>(key, val). val) (collect_deltas p)
        \<and> nd_iadd (compute obj args) (jvp obj inds dc args) = Inr RHS1
       \<longrightarrow> (\<exists>rest. snd (snd (perturb (E\<lparr>use_jax := False\<rparr>) p st a)) =
              [Warn fd_warning]
              @ (if eq_built (st ! a) then [] else [EvBuild (arg_verbose p)])
              @ [EvProject]
              @ (case arg_Jx p of None \<Rightarrow> [EvJacX] | Some J \<Rightarrow> [])
              @ [EvSvd, EvCompute, EvJvp inds dc,
                 EvTrStep
                   \<lparr>tr_n = (case Jx of [] \<Rightarrow> 0 | r # _ \<Rightarrow> length r), tr_m = length Jx,
                    tr_f = RHS1, tr_u = u, tr_s = s, tr_v = transpose vt,
                    tr_Delta = tr_times (arg_tr_ratio p) (nd_norm (Arr (fst args))),
                    tr_initial_alpha = None, tr_rtol = 1 / 100, tr_max_iter = 10,
                    tr_threshold = 1 / 10 ^ 6\<rparr>]
              @ rest))
   \<and> (a < length st \<and> eq_built (st ! a) \<and> eq_objective (st ! a) = Some obj \<and> \<not> scalar obj
        \<and> all_deltas_none_or_zero p \<and> arg_order p = 1
        \<and> unpack_tr_ratio (arg_tr_ratio p) = Inr tr
        \<and> args = objective_args obj (st ! a)
        \<and> Jx = (case arg_Jx p of None \<Rightarrow> jac_x obj args | Some J \<Rightarrow> J)
        \<and> svd E Jx = (u, s, vt) \<and> s \<noteq> []
        \<and> nd_iadd (compute obj args) (jvp obj [] [] args) = Inr RHS1
        \<and> trust_region_step_exact E
             \<lparr>tr_n = (case Jx of [] \<Rightarrow> 0 | r # _ \<Rightarrow> length r), tr_m = length Jx,
              tr_f = RHS1, tr_u = u, tr_s = s, tr_v = transpose vt,
              tr_Delta = tr_times (arg_tr_ratio p) (nd_norm (Arr (fst args))),
              tr_initial_alpha = None, tr_rtol = 1 / 100, tr_max_iter = 10,
              tr_threshold = 1 / 10 ^ 6\<rparr> = Inr (dx1, hit, alpha)
        \<and> length dx1 = length (fst args)
       \<longrightarrow> (\<exists>new st' evs. perturb (E\<lparr>use_jax := False\<rparr>) p st a
                               = (Inr new, st', Warn fd_warning # evs)
              \<and> new < length st'
              \<and> eq_x (st' ! new) = recover (BC_constraint obj) (Arr (map2 (+) (fst args) dx1))))"
proof (intro conjI impI)
  let ?E = "E\<lparr>use_jax := False\<rparr>"
  show A: "perturb ?E p st a =
     (case perturb (E\<lparr>use_jax := True\<rparr>) p st a of
        (r, st', evs) \<Rightarrow> (r, st', Warn fd_warning # evs))"
    by (simp add: perturb_def steps_use_jax apply_perturbation_use_jax ensure_built_use_jax Let_def
        split: option.splits sum.splits prod.splits)
  {
    assume h: "a < length st \<and> eq_objective (st ! a) = Some obj0 \<and> \<not> scalar obj0
        \<and> e = ensure_built E (arg_verbose p) (st ! a) \<and> eq_objective e = Some obj
        \<and> args = objective_args obj e
        \<and> unpack_tr_ratio (arg_tr_ratio p) = Inr tr
        \<and> 0 < arg_order p
        \<and> Jx = (case arg_Jx p of None \<Rightarrow> jac_x obj args | Some J \<Rightarrow> J)
        \<and> svd E Jx = (u, s, vt) \<and> s \<noteq> []
        \<and> inds = map (\<lambda>(key, val). arg_idx key) (collect_deltas p)
        \<and> dc = map (\<lambda>(key, val). val) (collect_deltas p)
        \<and> nd_iadd (compute obj args) (jvp obj inds dc args) = Inr RHS1"
    have obj: "eq_objective (ensure_built ?E (arg_verbose p) (st ! a)) = Some obj"
      using h by (auto simp: ensure_built_use_jax)
    have s1: "svd ?E (case arg_Jx p of None \<Rightarrow> jac_x obj args | Some J \<Rightarrow> J) = (u, s, vt)"
      using h by auto
    have ia: "nd_iadd (compute obj args)
           (jvp obj (map (\<lambda>(key, val). arg_idx key) (collect_deltas p))
                    (map (\<lambda>(key, val). val) (collect_deltas p)) args) = Inr RHS1"
      using h by auto
    have sn: "s \<noteq> []" using h by blast
    have o: "0 < arg_order p" using h by blast
    from perturb_events_begin[of a st obj0 ?E p obj tr] h obj
    obtain r1 where e1: "snd (snd (perturb ?E p st a)) =
           [Warn fd_warning]
           @ (if eq_built (st ! a) then [] else [EvBuild (arg_verbose p)]) @ [EvProject]
           @ snd (steps ?E obj p (collect_deltas p) args (fst args)) @ r1"
      by (auto simp: ensure_built_use_jax)
    from steps_events_begin[OF o, of ?E obj "collect_deltas p" args "fst args"]
    obtain r2 where e2: "snd (steps ?E obj p (collect_deltas p) args (fst args)) =
           snd (first_order ?E obj p (collect_deltas p) args (fst args)) @ r2"
      by blast
    show "\<exists>rest. snd (snd (perturb ?E p st a)) =
              [Warn fd_warning]
              @ (if eq_built (st ! a) then [] else [EvBuild (arg_verbose p)])
              @ [EvProject]
              @ (case arg_Jx p of None \<Rightarrow> [EvJacX] | Some J \<Rightarrow> [])
              @ [EvSvd, EvCompute, EvJvp inds dc,
                 EvTrStep
                   \<lparr>tr_n = (case Jx of [] \<Rightarrow> 0 | r # _ \<Rightarrow> length r), tr_m = length Jx,
                    tr_f = RHS1, tr_u = u, tr_s = s, tr_v = transpose vt,
                    tr_Delta = tr_times (arg_tr_ratio p) (nd_norm (Arr (fst args))),
                    tr_initial_alpha = None, tr_rtol = 1 / 100, tr_max_iter = 10,
                    tr_threshold = 1 / 10 ^ 6\<rparr>]
              @ rest"
      unfolding e1 e2 first_order_events[OF s1 sn ia]
      using h by (intro exI[of _ "r2 @ r1"]) simp
  }
  {
    assume h: "a < length st \<and> eq_built (st ! a) \<and> eq_objective (st ! a) = Some obj \<and> \<not> scalar obj
        \<and> all_deltas_none_or_zero p \<and> arg_order p = 1
        \<and> unpack_tr_ratio (arg_tr_ratio p) = Inr tr
        \<and> args = objective_args obj (st ! a)
        \<and> Jx = (case arg_Jx p of None \<Rightarrow> jac_x obj args | Some J \<Rightarrow> J)
        \<and> svd E Jx = (u, s, vt) \<and> s \<noteq> []
        \<and> nd_iadd (compute obj args) (jvp obj [] [] args) = Inr RHS1
        \<and> trust_region_step_exact E
             \<lparr>tr_n = (case Jx of [] \<Rightarrow> 0 | r # _ \<Rightarrow> length r), tr_m = length Jx,
              tr_f = RHS1, tr_u = u, tr_s = s, tr_v = transpose vt,
              tr_Delta = tr_times (arg_tr_ratio p) (nd_norm (Arr (fst args))),
              tr_initial_alpha = None, tr_rtol = 1 / 100, tr_max_iter = 10,
              tr_threshold = 1 / 10 ^ 6\<rparr> = Inr (dx1, hit, alpha)
        \<and> length dx1 = length (fst args)"
    let ?c = "\<lparr>tr_n = (case Jx of [] \<Rightarrow> 0 | r # _ \<Rightarrow> length r), tr_m = length Jx,
              tr_f = RHS1, tr_u = u, tr_s = s, tr_v = transpose vt,
              tr_Delta = tr_times (arg_tr_ratio p) (nd_norm (Arr (fst args))),
              tr_initial_alpha = None, tr_rtol = 1 / 100, tr_max_iter = 10,
              tr_threshold = 1 / 10 ^ 6\<rparr>"
    have sv: "svd ?E Jx = (u, s, vt)" using h by auto
    have so: "trust_region_step_exact ?E ?c = Inr (dx1, hit, alpha)" using h by auto
    from order_one_no_deltas(2)[where E = ?E and ?c1.0 = ?c and p = p and st = st and a = a
          and obj = obj and tr = tr and args = args and Jx = Jx and u = u and s = s and vt = vt
          and ?RHS1.0 = RHS1 and ?dx1.0 = dx1 and hit = hit and alpha = alpha] h sv so
    obtain new st' evs where r: "perturb ?E p st a = (Inr new, st', evs)"
      "new < length st'"
      "eq_x (st' ! new) = recover (BC_constraint obj) (Arr (map2 (+) (fst args) dx1))"
      by auto
    from r(1) A obtain evs0 where "evs = Warn fd_warning # evs0"
      by (auto split: prod.splits)
    with r show "\<exists>new st' evs. perturb ?E p st a = (Inr new, st', Warn fd_warning # evs)
              \<and> new < length st'
              \<and> eq_x (st' ! new) = recover (BC_constraint obj) (Arr (map2 (+) (fst args) dx1))"
      by blast
  }
qed

text \<open>On the example without JAX, at first order: the events up to the solve, and the
  state vector of the equilibrium returned.\<close>

theorem perturb_without_jax_witness:
  "(\<exists>rest. snd (snd (perturb (ex_env\<lparr>use_jax := False\<rparr>) (default_args\<lparr>arg_order := 1\<rparr>) [ex_eq] 0)) =
      [Warn fd_warning, EvProject, EvJacX, EvSvd, EvCompute, EvJvp [] [],
       EvTrStep \<lparr>tr_n = 2, tr_m = 2, tr_f = [1, 2], tr_u = [[1, 0], [0, 1]], tr_s = [1, 1 / 10],
                 tr_v = transpose [[1, 0], [0, 1]], tr_Delta = Scal (1 / 2),
                 tr_initial_alpha = None, tr_rtol = 1 / 100, tr_max_iter = 10,
                 tr_threshold = 1 / 10 ^ 6\<rparr>] @ rest)
   \<and> (\<exists>new st' evs. perturb (ex_env\<lparr>use_jax := False\<rparr>) (default_args\<lparr>arg_order := 1\<rparr>) [ex_eq] 0
          = (Inr new, st', Warn fd_warning # evs)
        \<and> eq_x (st' ! new) = [6, 4, 0])"
proof -
  let ?p = "default_args\<lparr>arg_order := 1\<rparr>"
  let ?args = "objective_args ex_objective ex_eq"
  let ?Jx = "[[1, 0], [0, 1 / 10 :: real]]"
  let ?I = "[[1, 0], [0, 1 :: real]]"
  let ?call = "\<lparr>tr_n = (case ?Jx of [] \<Rightarrow> 0 | r # _ \<Rightarrow> length r), tr_m = length ?Jx,
                tr_f = [1, 2], tr_u = ?I, tr_s = [1, 1 / 10], tr_v = transpose ?I,
                tr_Delta = tr_times (arg_tr_ratio ?p) (nd_norm (Arr (fst ?args))),
                tr_initial_alpha = None, tr_rtol = 1 / 100, tr_max_iter = 10,
                tr_threshold = 1 / 10 ^ 6\<rparr>"
  note T = perturb_without_jax_warns_and_proceeds
      [where E = ex_env and p = ?p and st = "[ex_eq]" and a = 0 and ?obj0.0 = ex_objective
         and e = ex_eq and obj = ex_objective and args = ?args and tr = "(1 / 10, 1 / 10)"
         and Jx = ?Jx and u = ?I and s = "[1, 1 / 10]" and vt = ?I and inds = "[]" and dc = "[]"
         and ?RHS1.0 = "[1, 2]" and ?dx1.0 = "[3, 0]" and hit = False and alpha = 0]
  have h2: "(0::nat) < length [ex_eq] \<and> eq_objective ([ex_eq] ! 0) = Some ex_objective \<and> \<not> scalar ex_objective
        \<and> ex_eq = ensure_built ex_env (arg_verbose ?p) ([ex_eq] ! 0) \<and> eq_objective ex_eq = Some ex_objective
        \<and> ?args = objective_args ex_objective ex_eq
        \<and> unpack_tr_ratio (arg_tr_ratio ?p) = Inr (1 / 10, 1 / 10)
        \<and> 0 < arg_order ?p
        \<and> ?Jx = (case arg_Jx ?p of None \<Rightarrow> jac_x ex_objective ?args | Some J \<Rightarrow> J)
        \<and> svd ex_env ?Jx = (?I, [1, 1 / 10], ?I) \<and> [1, 1 / 10 :: real] \<noteq> []
        \<and> [] = map (\<lambda>(key, val). arg_idx key) (collect_deltas ?p)
        \<and> [] = map (\<lambda>(key, val). val) (collect_deltas ?p)
        \<and> nd_iadd (compute ex_objective ?args) (jvp ex_objective [] [] ?args) = Inr [1, 2]"
    by (simp add: ex_defs ensure_built_def collect_deltas_def delta_entry_def nd_iadd_def)
  have h3: "(0::nat) < length [ex_eq] \<and> eq_built ([ex_eq] ! 0) \<and> eq_objective ([ex_eq] ! 0) = Some ex_objective
        \<and> \<not> scalar ex_objective
        \<and> all_deltas_none_or_zero ?p \<and> arg_order ?p = 1
        \<and> unpack_tr_ratio (arg_tr_ratio ?p) = Inr (1 / 10, 1 / 10)
        \<and> ?args = objective_args ex_objective ([ex_eq] ! 0)
        \<and> ?Jx = (case arg_Jx ?p of None \<Rightarrow> jac_x ex_objective ?args | Some J \<Rightarrow> J)
        \<and> svd ex_env ?Jx = (?I, [1, 1 / 10], ?I) \<and> [1, 1 / 10 :: real] \<noteq> []
        \<and> nd_iadd (compute ex_objective ?args) (jvp ex_objective [] [] ?args) = Inr [1, 2]
        \<and> trust_region_step_exact ex_env ?call = Inr ([3, 0], False, 0)
        \<and> length [3, 0 :: real] = length (fst ?args)"
    by (simp add: ex_defs all_deltas_none_or_zero_def none_or_zero_def nd_iadd_def objective_args_def)
  from T h2 have B: "\<exists>rest. snd (snd (perturb (ex_env\<lparr>use_jax := False\<rparr>) ?p [ex_eq] 0)) =
              [Warn fd_warning]
              @ (if eq_built ([ex_eq] ! 0) then [] else [EvBuild (arg_verbose ?p)])
              @ [EvProject]
              @ (case arg_Jx ?p of None \<Rightarrow> [EvJacX] | Some J \<Rightarrow> [])
              @ [EvSvd, EvCompute, EvJvp [] [], EvTrStep ?call]
              @ rest"
    by blast
  from T h3 have C: "\<exists>new st' evs. perturb (ex_env\<lparr>use_jax := False\<rparr>) ?p [ex_eq] 0
                               = (Inr new, st', Warn fd_warning # evs)
              \<and> new < length st'
              \<and> eq_x (st' ! new) = recover (BC_constraint ex_objective) (Arr (map2 (+) (fst ?args) [3, 0]))"
    by blast
  have pre: "[Warn fd_warning]
              @ (if eq_built ([ex_eq] ! 0) then [] else [EvBuild (arg_verbose ?p)])
              @ [EvProject]
              @ (case arg_Jx ?p of None \<Rightarrow> [EvJacX] | Some J \<Rightarrow> [])
              @ [EvSvd, EvCompute, EvJvp [] [], EvTrStep ?call]
        = [Warn fd_warning, EvProject, EvJacX, EvSvd, EvCompute, EvJvp [] [],
       EvTrStep \<lparr>tr_n = 2, tr_m = 2, tr_f = [1, 2], tr_u = [[1, 0], [0, 1]], tr_s = [1, 1 / 10],
                 tr_v = transpose [[1, 0], [0, 1]], tr_Delta = Scal (1 / 2),
                 tr_initial_alpha = None, tr_rtol = 1 / 100, tr_max_iter = 10,
                 tr_threshold = 1 / 10 ^ 6\<rparr>]"
    by (simp add: ex_defs objective_args_def)
  have rec: "recover (BC_constraint ex_objective) (Arr (map2 (+) (fst ?args) [3, 0])) = [6, 4, 0]"
    by (simp add: ex_defs objective_args_def)
  from B have B': "\<exists>rest. snd (snd (perturb (ex_env\<lparr>use_jax := False\<rparr>) ?p [ex_eq] 0)) =
      [Warn fd_warning, EvProject, EvJacX, EvSvd, EvCompute, EvJvp [] [],
       EvTrStep \<lparr>tr_n = 2, tr_m = 2, tr_f = [1, 2], tr_u = [[1, 0], [0, 1]], tr_s = [1, 1 / 10],
                 tr_v = transpose [[1, 0], [0, 1]], tr_Delta = Scal (1 / 2),
                 tr_initial_alpha = None, tr_rtol = 1 / 100, tr_max_iter = 10,
                 tr_threshold = 1 / 10 ^ 6\<rparr>] @ rest"
    using pre by (metis append.assoc)
  from C rec have C': "\<exists>new st' evs. perturb (ex_env\<lparr>use_jax := False\<rparr>) ?p [ex_eq] 0
          = (Inr new, st', Warn fd_warning # evs)
        \<and> eq_x (st' ! new) = [6, 4, 0]"
    by metis
  show ?thesis using B' C' by blast
qed

end
